theory Spec2Isabelle
  imports Main "HOL-Library.Multiset"
begin

section \<open>The IPFS service: configuration and persisted state\<close>

text \<open>
  The service module keeps its constants at module level: the write API, the ordered list of
  read gateways, the optional Infura credentials and \<open>CACHE_CONFIG\<close>. The model takes them
  as one record, so that a statement can range over gateway lists and cache limits;
  \<open>default_config\<close> holds the values the module is shipped with.
\<close>

record config =
  IPFS_API_URL :: string
  IPFS_GATEWAYS :: "string list"
  INFURA_PROJECT_ID :: string
  INFURA_PROJECT_SECRET :: string
  MAX_CACHE_SIZE :: int
  MAX_CACHE_AGE :: int
  MAX_CACHE_ITEMS :: nat
  cacheDirectory :: string

definition default_config :: config where
  "default_config =
     \<lparr> IPFS_API_URL = ''https://ipfs.infura.io:5001/api/v0'',
       IPFS_GATEWAYS =
         [''https://ipfs.io/ipfs'', ''https://gateway.pinata.cloud/ipfs'',
          ''https://cloudflare-ipfs.com/ipfs'', ''https://ipfs.fleek.co/ipfs'',
          ''https://dweb.link/ipfs''],
       INFURA_PROJECT_ID = '''',
       INFURA_PROJECT_SECRET = '''',
       MAX_CACHE_SIZE = 50 * 1024 * 1024,
       MAX_CACHE_AGE = 7 * 24 * 60 * 60 * 1000,
       MAX_CACHE_ITEMS = 100,
       cacheDirectory = ''file:///cache/'' \<rparr>"

text \<open>
  \<open>IPFS_GATEWAY_URL = IPFS_GATEWAYS[0]\<close>. The list of the module is a literal with five
  entries; for an empty list JavaScript yields \<open>undefined\<close>, which the URL templates print
  as the text below.
\<close>

definition IPFS_GATEWAY_URL :: "config \<Rightarrow> string" where
  "IPFS_GATEWAY_URL cfg = (case IPFS_GATEWAYS cfg of [] \<Rightarrow> ''undefined'' | g # _ \<Rightarrow> g)"

text \<open>
  An entry of the cache index, \<open>{ size, timestamp }\<close>. Sizes and times are JavaScript
  numbers holding integers (a byte count, milliseconds since the epoch).
\<close>

record index_entry =
  size_bytes :: int
  timestamp :: int

text \<open>The record kept under \<open>GATEWAY_SPEED_TEST\<close>; \<open>timestamp'\<close> is its field \<open>timestamp\<close>.\<close>

record speed_test =
  timestamp' :: int
  fastestGateway :: string
  allResults :: "(string \<times> int) list"

text \<open>Numbers handed to the progress callback.\<close>

datatype jsnum = Num int | PosInfinity | NaN

datatype request = ProbeGet string | DownloadGet string | UploadPost string

text \<open>
  The state the module works on. AsyncStorage is a string-keyed store; its keys are the fixed
  names and prefixes of \<open>ASYNC_STORAGE_KEYS\<close>, so each name or prefix is one field here:
  \<^item> \<open>preferred_gateway\<close>: key \<open>ipfs_preferred_gateway\<close>;
  \<^item> \<open>gateway_speed_test\<close>: key \<open>ipfs_gateway_speeds\<close> (JSON);
  \<^item> \<open>file_cache\<close>: keys \<open>ipfs_cache_<cid>\<close>, the base64 text of a blob;
  \<^item> \<open>file_status\<close>: keys \<open>ipfs_status_<cid>\<close> (JSON \<open>{ status, timestamp }\<close>);
  \<^item> \<open>cache_index\<close>: key \<open>ipfs_cache_index\<close>, a JSON object from cid to entry, kept
    as an association list in the insertion order of its keys, which is the order of
    \<open>Object.entries\<close> for keys that are not array indices, as content identifiers are;
  \<^item> \<open>cache_size\<close>: key \<open>ipfs_cache_size\<close>, the running total as a decimal text.

  \<open>None\<close> is a key that is not stored (\<open>getItem\<close> yields \<open>null\<close>). The fields are
  separate keys for every cid but the two texts \<open>index\<close> and \<open>size\<close>: the blob key of the
  cid \<open>index\<close> is the key of the index, and the blob key of the cid \<open>size\<close> is the key of
  the counter. \<open>removeItem\<close> of a blob key follows this (\<open>removeItem_FILE_CACHE\<close> below): it
  removes the index or the counter with it. A blob that a download writes under one of the
  two texts, which are no content identifiers, is kept in \<open>file_cache\<close> like any other.

  Reading the store and writing its small records is taken to succeed, and
  \<open>JSON.stringify\<close> followed by \<open>JSON.parse\<close>, or \<open>toString\<close> followed by \<open>parseInt\<close>, to
  give the value back; the handlers that the source puts around these calls have no branch
  of their own. The write of a blob may be rejected (see the surroundings).

  The other fields are the surroundings: the files of the cache directory, the clock read
  by \<open>Date.now()\<close>, and three logs, of the values passed to \<open>onProgress\<close>, of the network
  requests issued and of the lines written with \<open>console.error\<close>. The clock is set from
  outside: no time passes during one call of the module.
\<close>

record world =
  preferred_gateway :: "string option"
  gateway_speed_test :: "speed_test option"
  file_cache :: "string \<rightharpoonup> string"
  file_status :: "string \<rightharpoonup> bool \<times> int"
  cache_index :: "(string \<times> index_entry) list option"
  cache_size :: "int option"
  files :: "string set"
  clock :: int
  progress :: "jsnum list"
  requests :: "request list"
  console_error :: "string list"

text \<open>A fresh installation: nothing stored, no file, empty logs.\<close>

definition empty_world :: world where
  "empty_world =
     \<lparr> preferred_gateway = None, gateway_speed_test = None, file_cache = Map.empty,
       file_status = Map.empty, cache_index = None, cache_size = None, files = {},
       clock = 0, progress = [], requests = [], console_error = [] \<rparr>"

section \<open>Cache management\<close>

text \<open>The keys of \<open>ASYNC_STORAGE_KEYS\<close> that share a prefix.\<close>

definition FILE_CACHE_PREFIX :: string where
  "FILE_CACHE_PREFIX = ''ipfs_cache_''"

definition CACHE_INDEX :: string where
  "CACHE_INDEX = ''ipfs_cache_index''"

definition CACHE_SIZE :: string where
  "CACHE_SIZE = ''ipfs_cache_size''"

text \<open>
  Assignment \<open>obj[k] = v\<close> on a JavaScript object replaces the value of an existing key where
  it stands and appends a new key; \<open>delete obj[k]\<close> removes it.
\<close>

fun obj_set :: "('k \<times> 'v) list \<Rightarrow> 'k \<Rightarrow> 'v \<Rightarrow> ('k \<times> 'v) list" where
  "obj_set [] k v = [(k, v)]"
| "obj_set ((k', v') # kvs) k v = (if k' = k then (k, v) # kvs else (k', v') # obj_set kvs k v)"

definition obj_delete :: "('k \<times> 'v) list \<Rightarrow> 'k \<Rightarrow> ('k \<times> 'v) list" where
  "obj_delete kvs k = filter (\<lambda>kv. fst kv \<noteq> k) kvs"

text \<open>What \<open>getItem\<close> followed by \<open>if (data) ... JSON.parse\<close> or \<open>parseInt\<close> leaves in the local
  variable that was initialised to \<open>{}\<close> or to \<open>0\<close>.\<close>

definition read_index :: "world \<Rightarrow> (string \<times> index_entry) list" where
  "read_index w = (case cache_index w of None \<Rightarrow> [] | Some ix \<Rightarrow> ix)"

definition read_size :: "world \<Rightarrow> int" where
  "read_size w = (case cache_size w of None \<Rightarrow> 0 | Some n \<Rightarrow> n)"

text \<open>
  \<open>AsyncStorage.removeItem(FILE_CACHE_PREFIX + cid)\<close>: the blob of the cid is removed, and
  with it whatever else is stored under that key.
\<close>

definition removeItem_FILE_CACHE :: "string \<Rightarrow> world \<Rightarrow> world" where
  "removeItem_FILE_CACHE cid w =
     (let w1 = w\<lparr> file_cache := (file_cache w)(cid := None) \<rparr>
      in if FILE_CACHE_PREFIX @ cid = CACHE_INDEX then w1\<lparr> cache_index := None \<rparr>
         else if FILE_CACHE_PREFIX @ cid = CACHE_SIZE then w1\<lparr> cache_size := None \<rparr>
         else w1)"

text \<open>
  \<open>removeCachedFile\<close> reads the index first, removes the two keys of the cid, writes the
  index back without the entry if there was one, and then reads and lowers the counter if
  the entry had a positive size. (Under a cid that names a property every object inherits,
  such as \<open>constructor\<close>, \<open>cacheIndex[cid]\<close> is an inherited value without a size: the code
  writes the index back as it read it and leaves the counter, which is what happens here
  for a cid without entry.)
\<close>

definition removeCachedFile :: "string \<Rightarrow> world \<Rightarrow> world" where
  "removeCachedFile cid w =
     (let cacheIndex = read_index w;
          fileSize = (case map_of cacheIndex cid of None \<Rightarrow> 0 | Some e \<Rightarrow> size_bytes e);
          w0 = removeItem_FILE_CACHE cid w;
          w1 = w0\<lparr> file_status := (file_status w0)(cid := None) \<rparr>;
          w2 = (case map_of cacheIndex cid of
                  None \<Rightarrow> w1
                | Some e \<Rightarrow> w1\<lparr> cache_index := Some (obj_delete cacheIndex cid) \<rparr>)
      in if fileSize > 0
         then (case cache_size w2 of
                 None \<Rightarrow> w2
               | Some totalCacheSize \<Rightarrow>
                   w2\<lparr> cache_size := Some (max 0 (totalCacheSize - fileSize)) \<rparr>)
         else w2)"

text \<open>
  The three \<open>for\<close> statements of \<open>cleanCache\<close>, each over the entries sorted oldest first.
\<close>

fun remove_excess :: "(string \<times> index_entry) list \<Rightarrow> world \<Rightarrow> world" where
  "remove_excess [] w = w"
| "remove_excess (item # items) w = remove_excess items (removeCachedFile (fst item) w)"

fun remove_to_80 ::
  "config \<Rightarrow> int \<Rightarrow> int \<Rightarrow> (string \<times> index_entry) list \<Rightarrow> world \<Rightarrow> world" where
  "remove_to_80 cfg totalCacheSize removedSize [] w = w"
| "remove_to_80 cfg totalCacheSize removedSize (item # items) w =
     (let w' = removeCachedFile (fst item) w;
          removedSize' = removedSize + size_bytes (snd item)
      in if 5 * (totalCacheSize - removedSize') \<le> 4 * MAX_CACHE_SIZE cfg
         then w'
         else remove_to_80 cfg totalCacheSize removedSize' items w')"

fun remove_aged :: "int \<Rightarrow> (string \<times> index_entry) list \<Rightarrow> world \<Rightarrow> world" where
  "remove_aged maxAgeTimestamp [] w = w"
| "remove_aged maxAgeTimestamp (item # items) w =
     (if timestamp (snd item) < maxAgeTimestamp
      then remove_aged maxAgeTimestamp items (removeCachedFile (fst item) w)
      else w)"

definition cleanCache :: "config \<Rightarrow> world \<Rightarrow> world" where
  "cleanCache cfg w =
     (case cache_index w of
        None \<Rightarrow> w
      | Some cacheIndex \<Rightarrow>
          (let cacheEntries = sort_key (\<lambda>item. timestamp (snd item)) cacheIndex
           in if length cacheEntries > MAX_CACHE_ITEMS cfg
              then remove_excess
                     (take (length cacheEntries - MAX_CACHE_ITEMS cfg) cacheEntries) w
              else
                (let totalCacheSize = read_size w;
                     w1 = (if totalCacheSize > MAX_CACHE_SIZE cfg
                           then remove_to_80 cfg totalCacheSize 0 cacheEntries w
                           else w);
                     maxAgeTimestamp = clock w1 - MAX_CACHE_AGE cfg
                 in remove_aged maxAgeTimestamp cacheEntries w1)))"

definition trackCachedFile :: "config \<Rightarrow> string \<Rightarrow> int \<Rightarrow> world \<Rightarrow> world" where
  "trackCachedFile cfg cid size' w =
     (let cacheIndex = obj_set (read_index w) cid \<lparr> size_bytes = size', timestamp = clock w \<rparr>;
          w1 = w\<lparr> cache_index := Some cacheIndex \<rparr>;
          totalCacheSize = read_size w1 + size';
          w2 = w1\<lparr> cache_size := Some totalCacheSize \<rparr>
      in if totalCacheSize > MAX_CACHE_SIZE cfg then cleanCache cfg w2 else w2)"

section \<open>The surroundings: network and file system\<close>

text \<open>
  What the network and the local file system do is not decided by the module, so it is a
  parameter. Each network request is answered by a function of the number of requests issued
  before it and of its URL, so a gateway may fail at one attempt and serve at a later one.
  \<^item> A probe (\<open>axios.get\<close>) is answered with a status after some milliseconds
    (\<open>Replied status ms\<close>), or fails without an answer.
  \<^item> A download (\<open>createDownloadResumable ... downloadAsync\<close> and the read of the file)
    calls the progress callback with pairs \<open>(totalBytesWritten, totalBytesExpectedToWrite)\<close>
    and then rejects (no answer: a timeout, a refused connection), resolves without a
    result, or resolves with a result for the answer of the gateway: \<open>DlSaved status text\<close>
    is an answer with the HTTP status \<open>status\<close> whose body, of base64 text \<open>text\<close>, is in
    the file. \<open>downloadAsync\<close> resolves for every status: the body of an answer with a
    status other than 2xx is the error page of the gateway.
  \<^item> An upload (\<open>axios.post\<close>) calls \<open>onUploadProgress\<close> with pairs \<open>(loaded, total)\<close> and
    then rejects or answers with the fields \<open>Hash\<close>, \<open>hash\<close> and \<open>cid\<close> of its data.
  \<^item> A file system call of the upload path may reject with a message.
  \<^item> \<open>AsyncStorage.setItem\<close> of a blob, the one large value the module stores, may reject
    with a message: \<open>blob_write_error env cid text\<close>.

  Calls that stay on the device are otherwise taken to succeed: the other calls of
  AsyncStorage, and in the download path the read of the downloaded file and its deletion.
\<close>

datatype http_reply = Replied int int | Failed

datatype dl_outcome = DlRejects string | DlNoResult | DlSaved int string

record dl_reply =
  dl_events :: "(nat \<times> int) list"
  dl_outcome :: dl_outcome

datatype post_outcome = PostRejects string | PostReplies "string option" "string option" "string option"

record post_reply =
  post_events :: "(nat \<times> nat) list"
  post_outcome :: post_outcome

datatype fs_op = WriteFile string | GetInfo string | DeleteFile string

record env =
  probe_reply :: "nat \<Rightarrow> string \<Rightarrow> http_reply"
  download_reply :: "nat \<Rightarrow> string \<Rightarrow> dl_reply"
  upload_reply :: "nat \<Rightarrow> string \<Rightarrow> post_reply"
  fs_error :: "fs_op \<Rightarrow> string option"
  blob_write_error :: "string \<Rightarrow> string \<Rightarrow> string option"

datatype error = Error string

definition report :: "jsnum \<Rightarrow> world \<Rightarrow> world" where
  "report p w = w\<lparr> progress := progress w @ [p] \<rparr>"

section \<open>Gateway probing and the preferred gateway\<close>

text \<open>
  \<open>axios.get(url, { timeout })\<close>: the promise resolves with the status and the time taken
  when the answer arrives within the timeout and the status is 2xx (the default
  \<open>validateStatus\<close>); otherwise it rejects.
\<close>

definition axios_get :: "int \<Rightarrow> http_reply \<Rightarrow> (int \<times> int) option" where
  "axios_get timeout r =
     (case r of
        Failed \<Rightarrow> None
      | Replied status ms \<Rightarrow>
          if timeout < ms then None
          else if 200 \<le> status \<and> status < 300 then Some (status, ms)
          else None)"

definition testCid :: string where
  "testCid = ''QmYwAPJzv5CZsnA625s3Xf2nemtYgPpHdWEz79ojWnPbdG''"

definition testUrl :: "string \<Rightarrow> string" where
  "testUrl gateway = gateway @ ''/'' @ testCid @ ''/readme''"

text \<open>
  One test of the \<open>map\<close> over the gateways: the entry pushed to \<open>testResults\<close>, if any.
  \<open>n\<close> is the number of the request.
\<close>

definition speed_test_one :: "env \<Rightarrow> nat \<times> string \<Rightarrow> (string \<times> int) option" where
  "speed_test_one env ng =
     (case axios_get 5000 (probe_reply env (fst ng) (testUrl (snd ng))) of
        None \<Rightarrow> None
      | Some (status, responseTime) \<Rightarrow>
          if status = 200 \<or> status = 206 then Some (snd ng, responseTime) else None)"

text \<open>
  The tests run in parallel and push their entries as they complete. \<open>testResults\<close> is
  listed here in the configured order; once it is sorted by response time, only the order of
  gateways with equal response times depends on that.
\<close>

definition run_speed_tests :: "config \<Rightarrow> env \<Rightarrow> world \<Rightarrow> (string \<times> int) list" where
  "run_speed_tests cfg env w =
     List.map_filter (speed_test_one env) (enumerate (length (requests w)) (IPFS_GATEWAYS cfg))"

definition after_speed_tests :: "config \<Rightarrow> env \<Rightarrow> world \<Rightarrow> world" where
  "after_speed_tests cfg env w =
     w\<lparr> requests := requests w @ map (\<lambda>g. ProbeGet (testUrl g)) (IPFS_GATEWAYS cfg) \<rparr>"

definition fresh_speed_test :: "world \<Rightarrow> string option" where
  "fresh_speed_test w =
     (case gateway_speed_test w of
        None \<Rightarrow> None
      | Some cachedResult \<Rightarrow>
          if timestamp' cachedResult > clock w - 60 * 60 * 1000
             \<and> fastestGateway cachedResult \<noteq> []
          then Some (fastestGateway cachedResult) else None)"

definition findFastestGateway :: "config \<Rightarrow> env \<Rightarrow> world \<Rightarrow> string \<times> world" where
  "findFastestGateway cfg env w =
     (case fresh_speed_test w of
        Some gateway \<Rightarrow> (gateway, w)
      | None \<Rightarrow>
          (let w1 = after_speed_tests cfg env w
           in case sort_key snd (run_speed_tests cfg env w) of
                [] \<Rightarrow> (IPFS_GATEWAY_URL cfg, w1)
              | fastest # others \<Rightarrow>
                  (fst fastest,
                   w1\<lparr> gateway_speed_test :=
                         Some \<lparr> timestamp' = clock w1, fastestGateway = fst fastest,
                                allResults = fastest # others \<rparr> \<rparr>)))"

definition getPreferredGateway :: "config \<Rightarrow> env \<Rightarrow> bool \<Rightarrow> world \<Rightarrow> string \<times> world" where
  "getPreferredGateway cfg env forceRefresh w =
     (if forceRefresh then findFastestGateway cfg env w
      else
        (case preferred_gateway w of
           Some storedGateway \<Rightarrow>
             if storedGateway \<noteq> [] then (storedGateway, w)
             else (let (fastestGateway, w1) = findFastestGateway cfg env w
                   in (fastestGateway, w1\<lparr> preferred_gateway := Some fastestGateway \<rparr>))
         | None \<Rightarrow>
             (let (fastestGateway, w1) = findFastestGateway cfg env w
              in (fastestGateway, w1\<lparr> preferred_gateway := Some fastestGateway \<rparr>))))"

section \<open>Download\<close>

text \<open>
  \<open>Math.round(base + (written / expected) * span)\<close>, computed exactly: \<open>Math.round\<close> is the
  floor of its argument plus one half. A zero divisor gives \<open>Infinity\<close>, or \<open>NaN\<close> for 0/0.
\<close>

definition progressPercent :: "int \<Rightarrow> int \<Rightarrow> nat \<times> int \<Rightarrow> jsnum" where
  "progressPercent base span ev =
     (if snd ev = 0 then (if fst ev = 0 then NaN else PosInfinity)
      else Num ((2 * base * snd ev + 2 * span * int (fst ev) + snd ev) div (2 * snd ev)))"

text \<open>\<open>Math.min(x, m)\<close>.\<close>

definition js_min :: "jsnum \<Rightarrow> int \<Rightarrow> jsnum" where
  "js_min x m = (case x of Num n \<Rightarrow> Num (min n m) | PosInfinity \<Rightarrow> Num m | NaN \<Rightarrow> NaN)"

text \<open>
  The two steps that open the block "Cache the result for future use", when the blob is
  written: \<open>setItem\<close> of the blob and \<open>trackCachedFile\<close>. The size tracked is
  \<open>base64Data.length * 0.75\<close>; base64 text has a length that is a multiple of four, for
  which the product is the integer below.
\<close>

definition cache_result :: "config \<Rightarrow> string \<Rightarrow> string \<Rightarrow> world \<Rightarrow> world" where
  "cache_result cfg cid base64Data w =
     trackCachedFile cfg cid (3 * int (length base64Data) div 4)
       (w\<lparr> file_cache := (file_cache w)(cid \<mapsto> base64Data) \<rparr>)"

definition tempFilePath :: "config \<Rightarrow> string \<Rightarrow> string" where
  "tempFilePath cfg cid = cacheDirectory cfg @ ''ipfs_'' @ cid"

text \<open>
  The request of one attempt: it is logged, and the progress events of its answer reach
  \<open>onProgress\<close> through the attempt's own mapping.
\<close>

definition start_download ::
  "env \<Rightarrow> string \<Rightarrow> int \<Rightarrow> int \<Rightarrow> world \<Rightarrow> dl_outcome \<times> world" where
  "start_download env url base span w =
     (let r = download_reply env (length (requests w)) url
      in (dl_outcome r,
          w\<lparr> requests := requests w @ [DownloadGet url],
             progress := progress w
               @ map (\<lambda>ev. js_min (progressPercent base span ev) 90) (dl_events r) \<rparr>))"

text \<open>
  The attempt on the preferred gateway. \<open>Some data\<close> is the value returned; \<open>None\<close> is the
  handled failure after which the \<open>for\<close> statement over all gateways starts. The status
  of the answer is not read: every result with a file is returned. The block that caches
  the result is a \<open>try\<close> of its own: when the write of the blob rejects, the rest of the
  block is skipped and the attempt goes on. Then the temporary file is deleted
  (\<open>idempotent\<close>: whether it exists or not).
\<close>

definition download_preferred ::
  "config \<Rightarrow> env \<Rightarrow> string \<Rightarrow> world \<Rightarrow> string option \<times> world" where
  "download_preferred cfg env cid w =
     (let (preferredGateway, w1) = getPreferredGateway cfg env False w;
          (outcome, w2) = start_download env (preferredGateway @ ''/'' @ cid) 10 80 w1
      in case outcome of
           DlRejects msg \<Rightarrow> (None, w2)
         | DlNoResult \<Rightarrow> (None, report (Num 90) w2)
         | DlSaved status base64Data \<Rightarrow>
             (let w3 = (case blob_write_error env cid base64Data of
                          None \<Rightarrow> cache_result cfg cid base64Data (report (Num 90) w2)
                        | Some cacheError \<Rightarrow> report (Num 90) w2);
                  w4 = w3\<lparr> files := files w3 - {tempFilePath cfg cid} \<rparr>
              in (Some base64Data, report (Num 100) w4)))"

text \<open>
  The \<open>for\<close> statement over \<open>IPFS_GATEWAYS\<close>, from index \<open>i\<close> on, and the code after it.
  Here the block that caches the result ends with the promotion of the gateway, the write
  of \<open>PREFERRED_GATEWAY\<close>: it is skipped with the rest of the block when the write of the
  blob rejects.
\<close>

fun download_fallback ::
  "config \<Rightarrow> env \<Rightarrow> string \<Rightarrow> nat \<Rightarrow> string list \<Rightarrow> string option \<Rightarrow> world
    \<Rightarrow> (error + string) \<times> world" where
  "download_fallback cfg env cid i [] lastError w =
     (Inl (Error ''Failed to download from all IPFS gateways. Please try again later.''),
      w\<lparr> console_error := console_error w
           @ [''All IPFS gateways failed: ''
              @ (case lastError of None \<Rightarrow> ''null'' | Some msg \<Rightarrow> msg)] \<rparr>)"
| "download_fallback cfg env cid i (gateway # gateways) lastError w =
     (let (outcome, w1) = start_download env (gateway @ ''/'' @ cid) 20 70 w
      in case outcome of
           DlRejects msg \<Rightarrow>
             download_fallback cfg env cid (Suc i) gateways (Some msg)
               (report (Num (20 + (int i + 1) * 3)) w1)
         | DlNoResult \<Rightarrow>
             download_fallback cfg env cid (Suc i) gateways
               (Some ''Download failed with empty result'')
               (report (Num (20 + (int i + 1) * 3)) (report (Num 90) w1))
         | DlSaved status base64Data \<Rightarrow>
             (let w2 = (case blob_write_error env cid base64Data of
                          None \<Rightarrow>
                            (cache_result cfg cid base64Data (report (Num 90) w1))
                              \<lparr> preferred_gateway := Some gateway \<rparr>
                        | Some cacheError \<Rightarrow> report (Num 90) w1);
                  w3 = w2\<lparr> files := files w2 - {tempFilePath cfg cid} \<rparr>
              in (Inr base64Data, report (Num 100) w3)))"

definition downloadFromFilecoin ::
  "config \<Rightarrow> env \<Rightarrow> string \<Rightarrow> bool \<Rightarrow> world \<Rightarrow> (error + string) \<times> world" where
  "downloadFromFilecoin cfg env cid skipCache w =
     (let w0 = report (Num 5) w;
          cachedData = (if skipCache then None else file_cache w0 cid)
      in case (case cachedData of None \<Rightarrow> None | Some d \<Rightarrow> if d \<noteq> [] then Some d else None) of
           Some d \<Rightarrow> (Inr d, report (Num 100) w0)
         | None \<Rightarrow>
             (case download_preferred cfg env cid (report (Num 10) w0) of
                (Some base64Data, w1) \<Rightarrow> (Inr base64Data, w1)
              | (None, w1) \<Rightarrow> download_fallback cfg env cid 0 (IPFS_GATEWAYS cfg) None w1))"

section \<open>Upload\<close>

text \<open>\<open>base + Math.round((loaded * span) / total)\<close>.\<close>

definition uploadPercent :: "int \<Rightarrow> int \<Rightarrow> nat \<times> nat \<Rightarrow> jsnum" where
  "uploadPercent base span ev =
     (if snd ev = 0 then (if fst ev = 0 then NaN else PosInfinity)
      else Num (base + (2 * span * int (fst ev) + int (snd ev)) div (2 * int (snd ev))))"

text \<open>\<open>data.Hash || data.hash || data.cid\<close>, and the test \<open>!cid\<close> on it.\<close>

definition truthy :: "string option \<Rightarrow> bool" where
  "truthy x = (case x of None \<Rightarrow> False | Some s \<Rightarrow> s \<noteq> [])"

definition response_cid :: "string option \<Rightarrow> string option \<Rightarrow> string option \<Rightarrow> string option" where
  "response_cid Hash hash cid =
     (let c = (if truthy Hash then Hash else if truthy hash then hash else cid)
      in if truthy c then c else None)"

text \<open>
  One \<open>axios.post\<close> of the staged file with the steps up to \<open>return cid\<close>: the right summand is
  the cid returned, the left one the message of the error thrown inside the \<open>try\<close>.
\<close>

definition upload_attempt ::
  "env \<Rightarrow> string \<Rightarrow> string \<Rightarrow> string \<Rightarrow> int \<Rightarrow> int \<Rightarrow> world \<Rightarrow> (string + string) \<times> world" where
  "upload_attempt env url path no_cid_message base span w =
     (let r = upload_reply env (length (requests w)) url;
          w1 = w\<lparr> requests := requests w @ [UploadPost url],
                  progress := progress w @ map (uploadPercent base span) (post_events r) \<rparr>
      in case post_outcome r of
           PostRejects msg \<Rightarrow> (Inl msg, w1)
         | PostReplies Hash hash cid \<Rightarrow>
             (case response_cid Hash hash cid of
                None \<Rightarrow> (Inl no_cid_message, w1)
              | Some c \<Rightarrow>
                  (let w2 = report (Num 100) w1
                   in case fs_error env (DeleteFile path) of
                        Some msg \<Rightarrow> (Inl msg, w2)
                      | None \<Rightarrow> (Inr c, w2\<lparr> files := files w2 - {path} \<rparr>))))"

text \<open>The outer \<open>catch\<close>: log and rethrow.\<close>

definition upload_failed :: "string \<Rightarrow> world \<Rightarrow> (error + string) \<times> world" where
  "upload_failed msg w =
     (Inl (Error (''IPFS upload failed: '' @ msg)),
      w\<lparr> console_error := console_error w @ [''Error in IPFS upload process: '' @ msg] \<rparr>)"

definition uploadToFilecoin ::
  "config \<Rightarrow> env \<Rightarrow> string \<Rightarrow> string \<Rightarrow> world \<Rightarrow> (error + string) \<times> world" where
  "uploadToFilecoin cfg env fileData fileName w =
     (let w0 = report (Num 10) w;
          path = cacheDirectory cfg @ fileName
      in case fs_error env (WriteFile path) of
           Some msg \<Rightarrow> upload_failed msg w0
         | None \<Rightarrow>
             (let w1 = w0\<lparr> files := insert path (files w0) \<rparr>
              in case fs_error env (GetInfo path) of
                   Some msg \<Rightarrow> upload_failed msg w1
                 | None \<Rightarrow>
                     (case upload_attempt env (IPFS_API_URL cfg @ ''/add'') path
                             ''Failed to retrieve CID from upload response'' 20 70
                             (report (Num 20) w1) of
                        (Inr cid, w2) \<Rightarrow> (Inr cid, w2)
                      | (Inl uploadError, w2) \<Rightarrow>
                          (let infura =
                                 (if INFURA_PROJECT_ID cfg \<noteq> [] \<and> INFURA_PROJECT_SECRET cfg \<noteq> []
                                  then
                                    (case upload_attempt env ''https://ipfs.infura.io:5001/api/v0/add''
                                            path ''Failed to retrieve CID from Infura response'' 30 60
                                            (report (Num 30) w2) of
                                       (Inr infuraCid, w3) \<Rightarrow> (Some infuraCid, w3)
                                     | (Inl infuraError, w3) \<Rightarrow>
                                         (None,
                                          w3\<lparr> console_error := console_error w3
                                                @ [''Infura upload failed: '' @ infuraError] \<rparr>))
                                  else (None, w2))
                           in case infura of
                                (Some infuraCid, w4) \<Rightarrow> (Inr infuraCid, w4)
                              | (None, w4) \<Rightarrow>
                                  (case fs_error env (DeleteFile path) of
                                     Some msg \<Rightarrow> upload_failed msg w4
                                   | None \<Rightarrow>
                                       upload_failed
                                         (''All IPFS upload attempts failed. Primary error: ''
                                          @ uploadError)
                                         (w4\<lparr> files := files w4 - {path} \<rparr>))))))"

section \<open>Notions used in the statements\<close>

text \<open>The size the index records for a cid; 0 when the cid has no entry.\<close>

definition indexed_size :: "world \<Rightarrow> string \<Rightarrow> int" where
  "indexed_size w cid = (case map_of (read_index w) cid of None \<Rightarrow> 0 | Some e \<Rightarrow> size_bytes e)"

text \<open>The sum of the sizes over the index, and its agreement with the running counter.\<close>

definition index_total :: "world \<Rightarrow> int" where
  "index_total w = sum_list (map (\<lambda>item. size_bytes (snd item)) (read_index w))"

definition size_invariant :: "world \<Rightarrow> bool" where
  "size_invariant w = (index_total w = read_size w)"

text \<open>
  A cid whose blob key is a key of its own, neither the key of the index nor that of the
  counter: every text but \<open>index\<close> and \<open>size\<close> (\<open>own_blob_key_iff\<close>).
\<close>

definition own_blob_key :: "string \<Rightarrow> bool" where
  "own_blob_key cid =
     (FILE_CACHE_PREFIX @ cid \<noteq> CACHE_INDEX \<and> FILE_CACHE_PREFIX @ cid \<noteq> CACHE_SIZE)"

text \<open>
  An index as \<open>JSON.parse\<close> yields it (no key twice) whose sizes are byte counts and whose
  cids have blob keys of their own.
\<close>

definition index_ok :: "world \<Rightarrow> bool" where
  "index_ok w = (distinct (map fst (read_index w))
                 \<and> list_all (\<lambda>item. 0 \<le> size_bytes (snd item)) (read_index w)
                 \<and> list_all (\<lambda>item. own_blob_key (fst item)) (read_index w))"

definition cache_consistent :: "world \<Rightarrow> bool" where
  "cache_consistent w = (index_ok w \<and> size_invariant w)"

text \<open>Two worlds that differ in the cache keys only.\<close>

definition same_surroundings :: "world \<Rightarrow> world \<Rightarrow> bool" where
  "same_surroundings w w' =
     (preferred_gateway w' = preferred_gateway w \<and> gateway_speed_test w' = gateway_speed_test w
      \<and> files w' = files w \<and> clock w' = clock w \<and> progress w' = progress w
      \<and> requests w' = requests w \<and> console_error w' = console_error w)"




text \<open>
  Two notions of a failed attempt. A gateway fails when it does not serve the content: it
  gives no answer, the download resolves without a result, or the answer has a status
  other than 2xx. An attempt throws when it ends in its \<open>catch\<close>: the download rejects or
  resolves without a result; \<open>failure_message\<close> is the message of the error caught. An
  attempt that throws is one on a gateway that fails; a gateway that fails with an answer
  other than 2xx is one whose attempt does not throw.
\<close>

definition gateway_fails :: "dl_outcome \<Rightarrow> bool" where
  "gateway_fails outcome =
     (case outcome of
        DlRejects msg \<Rightarrow> True
      | DlNoResult \<Rightarrow> True
      | DlSaved status base64Data \<Rightarrow> \<not> (200 \<le> status \<and> status < 300))"

definition attempt_throws :: "dl_outcome \<Rightarrow> bool" where
  "attempt_throws outcome =
     (case outcome of
        DlRejects msg \<Rightarrow> True
      | DlNoResult \<Rightarrow> True
      | DlSaved status base64Data \<Rightarrow> False)"

definition failure_message :: "dl_outcome \<Rightarrow> string" where
  "failure_message outcome =
     (case outcome of
        DlRejects msg \<Rightarrow> msg
      | DlNoResult \<Rightarrow> ''Download failed with empty result''
      | DlSaved status base64Data \<Rightarrow> [])"

text \<open>Two worlds with the same blobs, index and counter.\<close>

definition same_cache :: "world \<Rightarrow> world \<Rightarrow> bool" where
  "same_cache w w' =
     (file_cache w' = file_cache w \<and> cache_index w' = cache_index w \<and> cache_size w' = cache_size w)"

text \<open>
  The answers a call \<open>downloadFromFilecoin cfg env cid skipCache w\<close> meets when it misses
  the cache: that of the attempt on the preferred gateway, which follows the requests made
  to resolve that gateway, and that of the attempt on the \<open>i\<close>-th gateway of the list
  (from 0) when it is reached, all attempts before it having thrown.
\<close>

definition preferred_reply :: "config \<Rightarrow> env \<Rightarrow> string \<Rightarrow> world \<Rightarrow> dl_reply" where
  "preferred_reply cfg env cid w =
     (let (preferredGateway, w1) =
            getPreferredGateway cfg env False (report (Num 10) (report (Num 5) w))
      in download_reply env (length (requests w1)) (preferredGateway @ ''/'' @ cid))"

definition fallback_reply :: "config \<Rightarrow> env \<Rightarrow> string \<Rightarrow> world \<Rightarrow> nat \<Rightarrow> dl_reply" where
  "fallback_reply cfg env cid w i =
     (let (preferredGateway, w1) =
            getPreferredGateway cfg env False (report (Num 10) (report (Num 5) w))
      in download_reply env (length (requests w1) + 1 + i) (IPFS_GATEWAYS cfg ! i @ ''/'' @ cid))"

text \<open>
  Progress values: a percentage is an integer from 0 to 100, and a sequence of reports is
  non-decreasing when each report is a number not below the ones before it.
\<close>

fun in_range :: "jsnum \<Rightarrow> bool" where
  "in_range (Num n) = (0 \<le> n \<and> n \<le> 100)"
| "in_range PosInfinity = False"
| "in_range NaN = False"

fun js_le :: "jsnum \<Rightarrow> jsnum \<Rightarrow> bool" where
  "js_le (Num a) (Num b) = (a \<le> b)"
| "js_le x y = False"

definition non_decreasing :: "jsnum list \<Rightarrow> bool" where
  "non_decreasing ps = sorted_wrt js_le ps"

text \<open>
  Progress events of a download as a transfer of known length produces them: the expected
  total is positive. They are steady when the bytes written never decrease and the
  expected total does not change.
\<close>

definition events_ok :: "(nat \<times> int) list \<Rightarrow> bool" where
  "events_ok evs = list_all (\<lambda>ev. 0 < snd ev) evs"

definition steady :: "(nat \<times> int) list \<Rightarrow> bool" where
  "steady evs = sorted_wrt (\<lambda>a b. fst a \<le> fst b \<and> snd a = snd b) evs"

text \<open>The integer an attempt reports for such an event.\<close>

definition percent :: "int \<Rightarrow> int \<Rightarrow> nat \<times> int \<Rightarrow> int" where
  "percent base span ev =
     min ((2 * base * snd ev + 2 * span * int (fst ev) + snd ev) div (2 * snd ev)) 90"

text \<open>\<open>w'\<close> has the reports of \<open>w\<close> followed by further percentages.\<close>

definition reports_more :: "world \<Rightarrow> world \<Rightarrow> bool" where
  "reports_more w w' =
     (\<exists>ps. progress w' = progress w @ map Num ps \<and> list_all (\<lambda>p. 0 \<le> p \<and> p \<le> 100) ps)"

text \<open>The same store and logs two hours later.\<close>

definition two_hours_later :: "world \<Rightarrow> world" where
  "two_hours_later w = w\<lparr> clock := clock w + 2 * 60 * 60 * 1000 \<rparr>"

text \<open>A call of \<open>trackCachedFile\<close> when the clock shows \<open>t\<close>.\<close>

definition insert_at :: "config \<Rightarrow> int \<Rightarrow> string \<Rightarrow> int \<Rightarrow> world \<Rightarrow> world" where
  "insert_at cfg t cid size' w = trackCachedFile cfg cid size' (w\<lparr> clock := t \<rparr>)"

section \<open>Example inputs\<close>

text \<open>One tracked blob of 30 bytes and one blob that is not tracked; the counter shows 100.\<close>

definition world_A :: world where
  "world_A =
     empty_world\<lparr> cache_index := Some [(''QmA'', \<lparr> size_bytes = 30, timestamp = 1 \<rparr>)],
                   cache_size := Some 100,
                   file_cache := [''QmA'' \<mapsto> ''QUFB'', ''QmB'' \<mapsto> ''QkJC''],
                   file_status := [''QmB'' \<mapsto> (True, 1)] \<rparr>"

text \<open>A consistent cache holding one blob of 30 bytes, at time 2.\<close>

definition world_B :: world where
  "world_B =
     empty_world\<lparr> cache_index := Some [(''QmA'', \<lparr> size_bytes = 30, timestamp = 1 \<rparr>)],
                   cache_size := Some 30,
                   file_cache := [''QmA'' \<mapsto> ''QUFB''],
                   clock := 2 \<rparr>"

text \<open>The shipped configuration with room for two items only.\<close>

definition config_2 :: config where
  "config_2 = default_config\<lparr> MAX_CACHE_ITEMS := 2 \<rparr>"

text \<open>
  Surroundings in which every request fails; the local file system works and the store
  takes every blob.
\<close>

definition env_down :: env where
  "env_down =
     \<lparr> probe_reply = (\<lambda>n url. Failed),
       download_reply = (\<lambda>n url. \<lparr> dl_events = [], dl_outcome = DlRejects ''Network Error'' \<rparr>),
       upload_reply = (\<lambda>n url. \<lparr> post_events = [], post_outcome = PostRejects ''Network Error'' \<rparr>),
       fs_error = (\<lambda>op. None),
       blob_write_error = (\<lambda>cid text. None) \<rparr>"

text \<open>
  Three gateways: A answers the probe after 300 ms, B after 50 ms, and the answer of C
  would take seven seconds.
\<close>

definition config_ABC :: config where
  "config_ABC =
     default_config\<lparr> IPFS_GATEWAYS :=
       [''https://a.example'', ''https://b.example'', ''https://c.example''] \<rparr>"

definition env_ABC :: env where
  "env_ABC =
     env_down\<lparr> probe_reply := (\<lambda>n url.
        if url = testUrl ''https://a.example'' then Replied 200 300
        else if url = testUrl ''https://b.example'' then Replied 206 50
        else Replied 200 7000) \<rparr>"

text \<open>
  A preferred-gateway pointer next to a speed test measured at time 0, two hours later.
\<close>

definition world_stale :: world where
  "world_stale =
     empty_world\<lparr> preferred_gateway := Some ''https://dweb.link/ipfs'',
                   gateway_speed_test :=
                     Some \<lparr> timestamp' = 0, fastestGateway = ''https://dweb.link/ipfs'',
                            allResults = [(''https://dweb.link/ipfs'', 120)] \<rparr>,
                   clock := 2 * 60 * 60 * 1000 \<rparr>"

text \<open>
  Reads: only gateway C serves \<open>QmX\<close>; every download times out; every download leaves an
  empty file.
\<close>

definition env_C_serves :: env where
  "env_C_serves =
     env_ABC\<lparr> download_reply := (\<lambda>n url.
        if url = ''https://c.example/QmX''
        then \<lparr> dl_events = [(3, 6), (6, 6)], dl_outcome = DlSaved 200 ''aGVsbG8='' \<rparr>
        else \<lparr> dl_events = [], dl_outcome = DlRejects ''Network Error'' \<rparr>) \<rparr>"

definition env_slow :: env where
  "env_slow =
     env_down\<lparr> download_reply := (\<lambda>n url.
        \<lparr> dl_events = [], dl_outcome = DlRejects ''timeout of 60000ms exceeded'' \<rparr>) \<rparr>"

definition env_serving :: env where
  "env_serving =
     env_down\<lparr> download_reply := (\<lambda>n url. \<lparr> dl_events = [], dl_outcome = DlSaved 200 [] \<rparr>) \<rparr>"


definition env_not_found :: env where
  "env_not_found =
     env_down\<lparr> download_reply := (\<lambda>n url.
        \<lparr> dl_events = [(9, 9)], dl_outcome = DlSaved 404 ''Tm90IEZvdW5k'' \<rparr>) \<rparr>"


text \<open>
  Downloads: the second request reports half of its bytes before it fails, all others fail
  at once; and a gateway that sends no content length, so that the expected total is -1.
  \<open>world_P\<close> has the given gateway as preferred gateway.
\<close>

definition env_partial :: env where
  "env_partial =
     env_down\<lparr> download_reply := (\<lambda>n url.
        if n = 1 then \<lparr> dl_events = [(1, 2)], dl_outcome = DlRejects ''Network Error'' \<rparr>
        else \<lparr> dl_events = [], dl_outcome = DlRejects ''Network Error'' \<rparr>) \<rparr>"

definition env_unknown_length :: env where
  "env_unknown_length =
     env_down\<lparr> download_reply := (\<lambda>n url.
        \<lparr> dl_events = [(1000, - 1)], dl_outcome = DlSaved 200 ''aGVsbG8='' \<rparr>) \<rparr>"

text \<open>
  Downloads that succeed with unsteady events: the expected total grows from 10 to 100
  during the transfer; the bytes written fall from 6 to 5.
\<close>

definition env_growing_total :: env where
  "env_growing_total =
     env_down\<lparr> download_reply := (\<lambda>n url.
        \<lparr> dl_events = [(5, 10), (6, 100)], dl_outcome = DlSaved 200 ''aGVsbG8='' \<rparr>) \<rparr>"

definition env_restarting :: env where
  "env_restarting =
     env_down\<lparr> download_reply := (\<lambda>n url.
        \<lparr> dl_events = [(6, 10), (5, 10)], dl_outcome = DlSaved 200 ''aGVsbG8='' \<rparr>) \<rparr>"

text \<open>A configuration with 27 gateways.\<close>

definition config_27 :: config where
  "config_27 = default_config\<lparr> IPFS_GATEWAYS := replicate 27 ''https://a.example'' \<rparr>"

definition world_P :: "string \<Rightarrow> world" where
  "world_P gateway = empty_world\<lparr> preferred_gateway := Some gateway \<rparr>"

text \<open>Reading the information of the staged file \<open>report.pdf\<close> fails.\<close>

definition env_info_fails :: env where
  "env_info_fails =
     env_down\<lparr> fs_error := (\<lambda>op.
        if op = GetInfo ''file:///cache/report.pdf'' then Some ''File is not readable'' else None) \<rparr>"

text \<open>
  Every download leaves the three bytes \<open>AAA\<close> (base64 \<open>QUFB\<close>). \<open>world_full\<close> is a cache
  of a hundred blobs of 1000 bytes, stored at the times 0 to 99.
\<close>

definition env_QUFB :: env where
  "env_QUFB =
     env_down\<lparr> download_reply := (\<lambda>n url.
        \<lparr> dl_events = [(3, 3)], dl_outcome = DlSaved 200 ''QUFB'' \<rparr>) \<rparr>"

definition world_full :: world where
  "world_full =
     empty_world\<lparr> cache_index :=
                     Some (map (\<lambda>i. (''Qm'' @ replicate i (CHR ''x''),
                                      \<lparr> size_bytes = 1000, timestamp = int i \<rparr>)) [0..<100]),
                   cache_size := Some 100000,
                   clock := 100 \<rparr>"

section \<open>Facts about the cache operations\<close>

text \<open>The definitions to unfold when a download is run on an example.\<close>

lemmas run_defs = downloadFromFilecoin_def download_preferred_def getPreferredGateway_def
  findFastestGateway_def fresh_speed_test_def run_speed_tests_def speed_test_one_def axios_get_def
  after_speed_tests_def start_download_def report_def List.map_filter_def enumerate_eq_zip
  Let_def split_def


subsection \<open>The cache operations touch the cache keys only\<close>

lemma same_surroundings_refl: "same_surroundings w w"
  by (simp add: same_surroundings_def)

lemma same_surroundings_trans:
  "same_surroundings w w' \<Longrightarrow> same_surroundings w' w'' \<Longrightarrow> same_surroundings w w''"
  by (simp add: same_surroundings_def)

lemma removeCachedFile_surroundings: "same_surroundings w (removeCachedFile cid w)"
  by (simp add: same_surroundings_def removeCachedFile_def removeItem_FILE_CACHE_def Let_def
        split: option.splits)

lemma remove_excess_surroundings: "same_surroundings w (remove_excess items w)"
proof (induction items arbitrary: w)
  case Nil
  show ?case by (simp add: same_surroundings_refl)
next
  case (Cons item items)
  show ?case
    using same_surroundings_trans [OF removeCachedFile_surroundings Cons.IH] by simp
qed

lemma remove_to_80_surroundings: "same_surroundings w (remove_to_80 cfg t r items w)"
proof (induction items arbitrary: w r)
  case Nil
  show ?case by (simp add: same_surroundings_refl)
next
  case (Cons item items)
  show ?case
    using same_surroundings_trans [OF removeCachedFile_surroundings Cons.IH]
      removeCachedFile_surroundings
    by (simp add: Let_def)
qed

lemma remove_aged_surroundings: "same_surroundings w (remove_aged m items w)"
proof (induction items arbitrary: w)
  case Nil
  show ?case by (simp add: same_surroundings_refl)
next
  case (Cons item items)
  show ?case
    using same_surroundings_trans [OF removeCachedFile_surroundings Cons.IH]
    by (simp add: same_surroundings_refl)
qed

lemma cleanCache_surroundings: "same_surroundings w (cleanCache cfg w)"
  unfolding cleanCache_def Let_def
  by (auto split: option.splits
      intro: same_surroundings_refl remove_excess_surroundings remove_aged_surroundings
        same_surroundings_trans [OF remove_to_80_surroundings remove_aged_surroundings])

lemma trackCachedFile_surroundings: "same_surroundings w (trackCachedFile cfg cid size' w)"
proof -
  let ?w2 = "w\<lparr> cache_index := Some (obj_set (read_index w) cid \<lparr> size_bytes = size', timestamp = clock w \<rparr>),
                cache_size := Some (read_size (w\<lparr> cache_index := Some (obj_set (read_index w) cid \<lparr> size_bytes = size', timestamp = clock w \<rparr>) \<rparr>) + size') \<rparr>"
  have a: "same_surroundings w ?w2" by (simp add: same_surroundings_def)
  show ?thesis
    using a same_surroundings_trans [OF a cleanCache_surroundings [of ?w2 cfg]]
    by (simp add: trackCachedFile_def Let_def)
qed

subsection \<open>Removal and the insert of a new cid keep index and counter in step\<close>

lemma obj_delete_absent: "k \<notin> fst ` set kvs \<Longrightarrow> obj_delete kvs k = kvs"
  by (induction kvs) (auto simp: obj_delete_def)

lemma blob_key_collisions:
  "(FILE_CACHE_PREFIX @ cid = CACHE_INDEX) = (cid = ''index'')"
  "(FILE_CACHE_PREFIX @ cid = CACHE_SIZE) = (cid = ''size'')"
  by (simp_all add: FILE_CACHE_PREFIX_def CACHE_INDEX_def CACHE_SIZE_def)

lemma own_blob_key_iff: "own_blob_key cid = (cid \<noteq> ''index'' \<and> cid \<noteq> ''size'')"
  by (simp add: own_blob_key_def blob_key_collisions)

text \<open>
  The index after a removal. The entry of the cid \<open>index\<close> is removed like any other; when
  that cid has no entry, the whole index goes with its blob key.
\<close>

lemma read_index_removeCachedFile:
  assumes "cid \<in> fst ` set (read_index w) \<or> FILE_CACHE_PREFIX @ cid \<noteq> CACHE_INDEX"
  shows "read_index (removeCachedFile cid w) = obj_delete (read_index w) cid"
proof (cases "map_of (read_index w) cid")
  case None
  then have n: "cid \<notin> fst ` set (read_index w)" by (simp add: map_of_eq_None_iff)
  then have "obj_delete (read_index w) cid = read_index w" by (rule obj_delete_absent)
  moreover have "FILE_CACHE_PREFIX @ cid \<noteq> CACHE_INDEX" using assms n by blast
  ultimately show ?thesis
    using None
    by (simp add: removeCachedFile_def removeItem_FILE_CACHE_def Let_def read_index_def
          split: option.splits)
next
  case (Some e)
  then show ?thesis
    by (simp add: removeCachedFile_def removeItem_FILE_CACHE_def Let_def read_index_def
          split: option.splits)
qed

lemma read_index_removeCachedFile_collision:
  assumes "cid \<notin> fst ` set (read_index w)" and "FILE_CACHE_PREFIX @ cid = CACHE_INDEX"
  shows "read_index (removeCachedFile cid w) = []"
proof -
  have "map_of (read_index w) cid = None" using assms(1) by (simp add: map_of_eq_None_iff)
  then show ?thesis
    using assms(2)
    by (simp add: removeCachedFile_def removeItem_FILE_CACHE_def Let_def read_index_def)
qed

lemma sum_obj_delete:
  fixes g :: "'v \<Rightarrow> int"
  assumes "distinct (map fst kvs)" and "map_of kvs k = Some v"
  shows "(\<Sum>kv\<leftarrow>obj_delete kvs k. g (snd kv)) = (\<Sum>kv\<leftarrow>kvs. g (snd kv)) - g v"
  using assms
proof (induction kvs)
  case Nil
  then show ?case by simp
next
  case (Cons kv kvs)
  show ?case
  proof (cases "fst kv = k")
    case True
    with Cons.prems have "k \<notin> fst ` set kvs" and "snd kv = v" by auto
    then show ?thesis using True obj_delete_absent [of k kvs]
      by (simp add: obj_delete_def)
  next
    case False
    with Cons show ?thesis by (simp add: obj_delete_def)
  qed
qed

lemma sum_nonneg_member:
  fixes g :: "'a \<Rightarrow> int"
  assumes "list_all (\<lambda>x. 0 \<le> g x) xs" and "x \<in> set xs"
  shows "g x \<le> (\<Sum>y\<leftarrow>xs. g y)"
  using assms
proof (induction xs)
  case Nil
  then show ?case by simp
next
  case (Cons y ys)
  have "0 \<le> (\<Sum>y\<leftarrow>ys. g y)"
    using Cons.prems(1) by (auto intro!: sum_list_nonneg simp: list_all_iff)
  with Cons show ?case by (auto simp: list_all_iff)
qed

lemma removeCachedFile_index_ok:
  assumes "index_ok w"
  shows "index_ok (removeCachedFile cid w)"
proof (cases "cid \<in> fst ` set (read_index w) \<or> FILE_CACHE_PREFIX @ cid \<noteq> CACHE_INDEX")
  case True
  show ?thesis
    using assms
    by (simp add: index_ok_def read_index_removeCachedFile [OF True] obj_delete_def
          distinct_map_filter list_all_iff)
next
  case False
  then have "read_index (removeCachedFile cid w) = []"
    by (simp add: read_index_removeCachedFile_collision)
  then show ?thesis by (simp add: index_ok_def)
qed

lemma read_size_removeCachedFile:
  assumes "FILE_CACHE_PREFIX @ cid \<noteq> CACHE_SIZE"
  shows "read_size (removeCachedFile cid w) =
     (if 0 < indexed_size w cid then
        (case cache_size w of None \<Rightarrow> 0 | Some t \<Rightarrow> max 0 (t - indexed_size w cid))
      else read_size w)"
  using assms
  by (simp add: removeCachedFile_def removeItem_FILE_CACHE_def Let_def read_size_def
        indexed_size_def split: option.splits)

lemma removeCachedFile_invariant:
  assumes ok: "index_ok w" and inv: "size_invariant w" and own: "own_blob_key cid"
  shows "size_invariant (removeCachedFile cid w)"
proof -
  have ri: "read_index (removeCachedFile cid w) = obj_delete (read_index w) cid"
    using own by (simp add: read_index_removeCachedFile own_blob_key_def)
  have rs: "read_size (removeCachedFile cid w) =
     (if 0 < indexed_size w cid then
        (case cache_size w of None \<Rightarrow> 0 | Some t \<Rightarrow> max 0 (t - indexed_size w cid))
      else read_size w)"
    using own by (simp add: read_size_removeCachedFile own_blob_key_def)
  show ?thesis
  proof (cases "map_of (read_index w) cid")
    case None
    then have "cid \<notin> fst ` set (read_index w)" by (simp add: map_of_eq_None_iff)
    then have "obj_delete (read_index w) cid = read_index w" by (rule obj_delete_absent)
    moreover have "indexed_size w cid = 0" using None by (simp add: indexed_size_def)
    ultimately show ?thesis
      using inv by (simp add: size_invariant_def index_total_def ri rs)
  next
    case (Some e)
    have d: "distinct (map fst (read_index w))" using ok by (simp add: index_ok_def)
    have nn: "list_all (\<lambda>item. 0 \<le> size_bytes (snd item)) (read_index w)"
      using ok by (simp add: index_ok_def)
    have s: "indexed_size w cid = size_bytes e" using Some by (simp add: indexed_size_def)
    have tot: "index_total (removeCachedFile cid w) = index_total w - size_bytes e"
      using sum_obj_delete [OF d Some, of size_bytes]
      by (simp add: index_total_def ri)
    have mem: "(cid, e) \<in> set (read_index w)" using Some by (rule map_of_SomeD)
    have le: "size_bytes e \<le> index_total w"
      using sum_nonneg_member [OF nn mem] by (simp add: index_total_def)
    have ge: "0 \<le> size_bytes e"
      using nn mem by (auto simp: list_all_iff)
    have rz: "read_size w = index_total w" using inv by (simp add: size_invariant_def)
    show ?thesis
    proof (cases "cache_size w")
      case None
      then have "read_size w = 0" by (simp add: read_size_def)
      with rz le ge have "size_bytes e = 0" "index_total w = 0" by simp_all
      then show ?thesis
        using tot s rz by (simp add: size_invariant_def rs)
    next
      case (Some t)
      then have "read_size w = t" by (simp add: read_size_def)
      with rz le have "index_total w = t" "size_bytes e \<le> t" by simp_all
      then show ?thesis
        using Some tot s rz ge by (simp add: size_invariant_def rs)
    qed
  qed
qed

lemma removeCachedFile_consistent:
  "cache_consistent w \<Longrightarrow> own_blob_key cid \<Longrightarrow> cache_consistent (removeCachedFile cid w)"
  by (simp add: cache_consistent_def removeCachedFile_index_ok removeCachedFile_invariant)

lemma remove_excess_consistent:
  "cache_consistent w \<Longrightarrow> list_all (\<lambda>item. own_blob_key (fst item)) items
     \<Longrightarrow> cache_consistent (remove_excess items w)"
  by (induction items arbitrary: w) (simp_all add: removeCachedFile_consistent)

lemma remove_to_80_consistent:
  "cache_consistent w \<Longrightarrow> list_all (\<lambda>item. own_blob_key (fst item)) items
     \<Longrightarrow> cache_consistent (remove_to_80 cfg t r items w)"
  by (induction items arbitrary: w r) (simp_all add: removeCachedFile_consistent Let_def)

lemma remove_aged_consistent:
  "cache_consistent w \<Longrightarrow> list_all (\<lambda>item. own_blob_key (fst item)) items
     \<Longrightarrow> cache_consistent (remove_aged m items w)"
  by (induction items arbitrary: w) (simp_all add: removeCachedFile_consistent)

lemma cleanCache_consistent:
  assumes "cache_consistent w"
  shows "cache_consistent (cleanCache cfg w)"
proof (cases "cache_index w")
  case None
  then show ?thesis using assms by (simp add: cleanCache_def)
next
  case (Some ix)
  let ?s = "sort_key (\<lambda>item. timestamp (snd item)) ix"
  have ri: "read_index w = ix" using Some by (simp add: read_index_def)
  have own: "list_all (\<lambda>item. own_blob_key (fst item)) ?s"
    using assms ri by (simp add: cache_consistent_def index_ok_def list_all_iff)
  have own_take: "list_all (\<lambda>item. own_blob_key (fst item)) (take n ?s)" for n
    using own set_take_subset [of n ?s] unfolding list_all_iff by blast
  show ?thesis
    using Some assms own own_take
    by (simp add: cleanCache_def Let_def remove_excess_consistent remove_to_80_consistent
          remove_aged_consistent)
qed

lemma obj_set_fresh: "k \<notin> fst ` set kvs \<Longrightarrow> obj_set kvs k v = kvs @ [(k, v)]"
  by (induction kvs) auto

lemma trackCachedFile_fresh_consistent:
  assumes "cache_consistent w" and "cid \<notin> fst ` set (read_index w)" and "0 \<le> size'"
    and "own_blob_key cid"
  shows "cache_consistent (trackCachedFile cfg cid size' w)"
proof -
  let ?ix = "obj_set (read_index w) cid \<lparr> size_bytes = size', timestamp = clock w \<rparr>"
  let ?w2 = "w\<lparr> cache_index := Some ?ix, cache_size := Some (read_size w + size') \<rparr>"
  have ix: "?ix = read_index w @ [(cid, \<lparr> size_bytes = size', timestamp = clock w \<rparr>)]"
    using assms(2) by (rule obj_set_fresh)
  have ri: "read_index ?w2 = read_index w @ [(cid, \<lparr> size_bytes = size', timestamp = clock w \<rparr>)]"
    using ix by (simp add: read_index_def)
  have rz: "read_size ?w2 = read_size w + size'" by (simp add: read_size_def)
  have "cache_consistent ?w2"
    using assms unfolding cache_consistent_def index_ok_def size_invariant_def index_total_def ri rz
    by simp
  then have "cache_consistent (cleanCache cfg ?w2)" by (rule cleanCache_consistent)
  with \<open>cache_consistent ?w2\<close> show ?thesis
    by (simp add: trackCachedFile_def Let_def read_size_def)
qed

subsection \<open>When the clean-up runs, and what its count check leaves\<close>

lemma trackCachedFile_no_cleanup:
  assumes "read_size w + size' \<le> MAX_CACHE_SIZE cfg"
  shows "trackCachedFile cfg cid size' w =
           w\<lparr> cache_index := Some (obj_set (read_index w) cid
                                      \<lparr> size_bytes = size', timestamp = clock w \<rparr>),
              cache_size := Some (read_size w + size') \<rparr>"
  using assms by (simp add: trackCachedFile_def Let_def read_size_def)

lemma sum_obj_set_tracked:
  fixes g :: "'v \<Rightarrow> int"
  assumes "map_of kvs k = Some v"
  shows "(\<Sum>kv\<leftarrow>obj_set kvs k v'. g (snd kv)) = (\<Sum>kv\<leftarrow>kvs. g (snd kv)) - g v + g v'"
  using assms by (induction kvs) (auto split: if_splits)

lemma trackCachedFile_tracked_totals:
  assumes "map_of (read_index w) cid = Some e"
    and "read_size w + size' \<le> MAX_CACHE_SIZE cfg"
  shows "index_total (trackCachedFile cfg cid size' w) = index_total w - size_bytes e + size'"
    and "read_size (trackCachedFile cfg cid size' w) = read_size w + size'"
  using sum_obj_set_tracked [OF assms(1), of size_bytes]
  by (simp_all add: trackCachedFile_no_cleanup [OF assms(2)] index_total_def read_index_def
        read_size_def)

lemma filter_keys_take:
  assumes "distinct (map fst s)"
  shows "filter (\<lambda>kv. fst kv \<notin> fst ` set (take k s)) s = drop k s"
proof -
  have d: "distinct (map fst (take k s) @ map fst (drop k s))"
    using assms by (simp flip: map_append)
  have t: "filter (\<lambda>kv. fst kv \<notin> fst ` set (take k s)) (take k s) = []"
    by (auto simp: filter_empty_conv)
  have "\<forall>kv \<in> set (drop k s). fst kv \<notin> fst ` set (take k s)"
    using d by auto
  then have r: "filter (\<lambda>kv. fst kv \<notin> fst ` set (take k s)) (drop k s) = drop k s"
    by (simp add: filter_id_conv)
  have "filter (\<lambda>kv. fst kv \<notin> fst ` set (take k s)) (take k s @ drop k s) = drop k s"
    unfolding filter_append t r by simp
  then show ?thesis by simp
qed

lemma read_index_remove_excess:
  assumes "distinct (map fst items)" and "fst ` set items \<subseteq> fst ` set (read_index w)"
  shows "read_index (remove_excess items w)
           = filter (\<lambda>kv. fst kv \<notin> fst ` set items) (read_index w)"
  using assms
proof (induction items arbitrary: w)
  case Nil
  show ?case by simp
next
  case (Cons item items)
  have m: "fst item \<in> fst ` set (read_index w)" using Cons.prems(2) by simp
  have r: "read_index (removeCachedFile (fst item) w) = obj_delete (read_index w) (fst item)"
    using m by (simp add: read_index_removeCachedFile)
  have d: "distinct (map fst items)" and n: "fst item \<notin> fst ` set items"
    using Cons.prems(1) by auto
  have s: "fst ` set items \<subseteq> fst ` set (read_index (removeCachedFile (fst item) w))"
  proof
    fix k assume k: "k \<in> fst ` set items"
    then have "k \<in> fst ` set (read_index w)" using Cons.prems(2) by auto
    moreover have "k \<noteq> fst item" using k n by blast
    ultimately show "k \<in> fst ` set (read_index (removeCachedFile (fst item) w))"
      unfolding r obj_delete_def by force
  qed
  show ?case
    using Cons.IH [OF d s] by (simp add: r obj_delete_def conj_commute)
qed

lemma cleanCache_restores_count:
  assumes ix: "cache_index w = Some ix" and d: "distinct (map fst ix)"
    and over: "MAX_CACHE_ITEMS cfg < length ix"
  shows "mset (read_index (cleanCache cfg w))
           = mset (drop (length ix - MAX_CACHE_ITEMS cfg) (sort_key (\<lambda>item. timestamp (snd item)) ix))"
    and "length (read_index (cleanCache cfg w)) = MAX_CACHE_ITEMS cfg"
proof -
  let ?s = "sort_key (\<lambda>item. timestamp (snd item)) ix"
  let ?k = "length ix - MAX_CACHE_ITEMS cfg"
  let ?P = "\<lambda>kv. fst kv \<notin> fst ` set (take ?k ?s)"
  have ri: "read_index w = ix" using ix by (simp add: read_index_def)
  have cc: "cleanCache cfg w = remove_excess (take ?k ?s) w"
    using ix over by (simp add: cleanCache_def Let_def)
  have "mset (map fst ?s) = mset (map fst ix)" by simp
  then have ds: "distinct (map fst ?s)" using d by (metis mset_eq_imp_distinct_iff)
  have "mset (filter ?P ix) = mset (filter ?P ?s)" by (simp add: mset_filter)
  also have "\<dots> = mset (drop ?k ?s)" using filter_keys_take [OF ds] by simp
  finally have f: "mset (filter ?P ix) = mset (drop ?k ?s)" .
  have dt: "distinct (map fst (take ?k ?s))"
    using ds by (simp add: take_map [symmetric] distinct_take)
  have "set (take ?k ?s) \<subseteq> set ix"
    using set_take_subset [of ?k ?s] by simp
  then have st: "fst ` set (take ?k ?s) \<subseteq> fst ` set (read_index w)"
    unfolding ri by blast
  show m: "mset (read_index (cleanCache cfg w)) = mset (drop ?k ?s)"
    using f by (simp add: cc read_index_remove_excess [OF dt st] ri)
  have "length (read_index (cleanCache cfg w)) = length (drop ?k ?s)"
    using m by (metis size_mset)
  then show "length (read_index (cleanCache cfg w)) = MAX_CACHE_ITEMS cfg"
    using over by simp
qed

lemma read_index_trackCachedFile_no_cleanup:
  assumes "read_size w + size' \<le> MAX_CACHE_SIZE cfg"
  shows "read_index (trackCachedFile cfg cid size' w)
           = obj_set (read_index w) cid \<lparr> size_bytes = size', timestamp = clock w \<rparr>"
  by (simp add: trackCachedFile_no_cleanup [OF assms] read_index_def)

lemma trackCachedFile_count_grows:
  assumes "cid \<notin> fst ` set (read_index w)" and "read_size w + size' \<le> MAX_CACHE_SIZE cfg"
  shows "length (read_index (trackCachedFile cfg cid size' w)) = length (read_index w) + 1"
  by (simp add: read_index_trackCachedFile_no_cleanup [OF assms(2)] obj_set_fresh [OF assms(1)])

section \<open>Insert of a cid that is already tracked\<close>

text \<open>The first download of \<open>QmA\<close> on a fresh installation, skipping the (empty) cache.\<close>

lemma downloadFromFilecoin_first_download:
  "snd (downloadFromFilecoin default_config env_QUFB ''QmA'' True empty_world) =
   empty_world\<lparr> preferred_gateway := Some ''https://ipfs.io/ipfs'',
     file_cache := [''QmA'' \<mapsto> ''QUFB''],
     cache_index := Some [(''QmA'', \<lparr> size_bytes = 3, timestamp = 0 \<rparr>)],
     cache_size := Some 3,
     progress := [Num 5, Num 10, Num 90, Num 90, Num 100],
     requests := map (\<lambda>g. ProbeGet (testUrl g)) (IPFS_GATEWAYS default_config) @ [DownloadGet ''https://ipfs.io/ipfs/QmA''] \<rparr>"
  by (simp add: run_defs env_QUFB_def env_down_def default_config_def empty_world_def upt_rec
      cache_result_def trackCachedFile_def read_index_def read_size_def progressPercent_def js_min_def
      IPFS_GATEWAY_URL_def)

text \<open>
  Claim C2. Every insert (\<open>trackCachedFile\<close>) and every removal (\<open>removeCachedFile\<close>) is
  to keep the sum of the sizes over the index equal to the running counter, also when the
  inserted cid has an index entry already. Removal and the insert of a new cid do, for a
  cid whose blob key is a key of its own
  (\<open>removeCachedFile_consistent\<close>, \<open>trackCachedFile_fresh_consistent\<close>). The insert of a
  tracked cid does not: the entry is replaced, and the size is added to the counter once
  more. Below, a cache with the one blob \<open>QmA\<close> of 30 bytes and counter 30 is given the
  same blob again: the index still sums to 30, the counter shows 60. The same happens
  through the public interface: after two downloads of the three-byte blob \<open>QmA\<close> with
  \<open>skipCache = true\<close> on a fresh installation the index sums to 3 and the counter shows 6.
\<close>

theorem trackCachedFile_reinsert_counts_twice:
  "size_invariant world_B
   \<and> map_of (read_index world_B) ''QmA'' = Some \<lparr> size_bytes = 30, timestamp = 1 \<rparr>
   \<and> read_index (trackCachedFile default_config ''QmA'' 30 world_B)
       = [(''QmA'', \<lparr> size_bytes = 30, timestamp = 2 \<rparr>)]
   \<and> index_total (trackCachedFile default_config ''QmA'' 30 world_B) = 30
   \<and> read_size (trackCachedFile default_config ''QmA'' 30 world_B) = 60
   \<and> \<not> size_invariant (trackCachedFile default_config ''QmA'' 30 world_B)
   \<and> size_invariant (snd (downloadFromFilecoin default_config env_QUFB ''QmA'' True empty_world))
   \<and> index_total (snd (downloadFromFilecoin default_config env_QUFB ''QmA'' True
        (snd (downloadFromFilecoin default_config env_QUFB ''QmA'' True empty_world)))) = 3
   \<and> read_size (snd (downloadFromFilecoin default_config env_QUFB ''QmA'' True
        (snd (downloadFromFilecoin default_config env_QUFB ''QmA'' True empty_world)))) = 6"
proof -
  have a: "size_invariant world_B
   \<and> map_of (read_index world_B) ''QmA'' = Some \<lparr> size_bytes = 30, timestamp = 1 \<rparr>
   \<and> read_index (trackCachedFile default_config ''QmA'' 30 world_B)
       = [(''QmA'', \<lparr> size_bytes = 30, timestamp = 2 \<rparr>)]
   \<and> index_total (trackCachedFile default_config ''QmA'' 30 world_B) = 30
   \<and> read_size (trackCachedFile default_config ''QmA'' 30 world_B) = 60
   \<and> \<not> size_invariant (trackCachedFile default_config ''QmA'' 30 world_B)"
    by (simp add: size_invariant_def index_total_def read_index_def read_size_def world_B_def
        empty_world_def trackCachedFile_def default_config_def Let_def)
  have b: "size_invariant (snd (downloadFromFilecoin default_config env_QUFB ''QmA'' True empty_world))
   \<and> index_total (snd (downloadFromFilecoin default_config env_QUFB ''QmA'' True
        (snd (downloadFromFilecoin default_config env_QUFB ''QmA'' True empty_world)))) = 3
   \<and> read_size (snd (downloadFromFilecoin default_config env_QUFB ''QmA'' True
        (snd (downloadFromFilecoin default_config env_QUFB ''QmA'' True empty_world)))) = 6"
    unfolding downloadFromFilecoin_first_download
    by (simp add: run_defs env_QUFB_def env_down_def default_config_def empty_world_def upt_rec
      cache_result_def trackCachedFile_def read_index_def read_size_def progressPercent_def js_min_def
      IPFS_GATEWAY_URL_def size_invariant_def index_total_def)
  from a b show ?thesis by simp
qed

section \<open>The item-count bound after an insert\<close>

lemma world_full_without_QmNew: "''QmNew'' \<notin> fst ` set (read_index world_full)"
proof -
  have n: "''New'' \<noteq> replicate i (CHR ''x'')" for i
    by (cases i) simp_all
  show ?thesis
    using n by (auto simp: world_full_def read_index_def empty_world_def)
qed

text \<open>
  Claim C3. After every insert the number of index entries is to be back within
  \<open>MAX_CACHE_ITEMS\<close>, the oldest entries being evicted; with a bound of 2, inserting
  \<open>cid1\<close>, \<open>cid2\<close>, \<open>cid3\<close> at times 1, 2, 3 is to leave \<open>cid2\<close> and \<open>cid3\<close>.
  \<open>cleanCache\<close> does evict the oldest entries down to the bound
  (\<open>cleanCache_restores_count\<close>), but \<open>trackCachedFile\<close> calls it only when the size
  counter exceeds \<open>MAX_CACHE_SIZE\<close> (\<open>trackCachedFile_no_cleanup\<close>). In the scenario, with
  blobs of 1000 bytes, nothing is evicted and the index holds three entries. With the
  shipped bound of 100, a cache of a hundred such blobs takes a further one and holds 101.
\<close>

theorem trackCachedFile_count_not_restored:
  "map fst (read_index
      (insert_at config_2 3 ''cid3'' 1000
        (insert_at config_2 2 ''cid2'' 1000
          (insert_at config_2 1 ''cid1'' 1000 empty_world))))
     = [''cid1'', ''cid2'', ''cid3'']
   \<and> MAX_CACHE_ITEMS config_2 = 2
   \<and> length (read_index world_full) = 100
   \<and> MAX_CACHE_ITEMS default_config = 100
   \<and> length (read_index (trackCachedFile default_config ''QmNew'' 1000 world_full)) = 101"
proof -
  have a: "map fst (read_index
      (insert_at config_2 3 ''cid3'' 1000
        (insert_at config_2 2 ''cid2'' 1000
          (insert_at config_2 1 ''cid1'' 1000 empty_world))))
     = [''cid1'', ''cid2'', ''cid3'']
   \<and> MAX_CACHE_ITEMS config_2 = 2"
    by (simp add: insert_at_def config_2_def read_index_def read_size_def
        empty_world_def trackCachedFile_def default_config_def Let_def)
  have s: "read_size world_full + 1000 \<le> MAX_CACHE_SIZE default_config"
    by (simp add: world_full_def read_size_def empty_world_def default_config_def)
  have l: "length (read_index world_full) = 100"
    by (simp add: world_full_def read_index_def empty_world_def)
  have m: "MAX_CACHE_ITEMS default_config = 100" by (simp add: default_config_def)
  show ?thesis
    using a l m trackCachedFile_count_grows [OF world_full_without_QmNew s] by simp
qed

section \<open>Probing the gateways\<close>





section \<open>The preferred gateway\<close>

text \<open>The first call on a fresh installation, at time 0: B is the fastest gateway.\<close>

lemma getPreferredGateway_first_call:
  "snd (getPreferredGateway config_ABC env_ABC False empty_world)
     = empty_world\<lparr> requests := map (\<lambda>g. ProbeGet (testUrl g)) (IPFS_GATEWAYS config_ABC),
                     gateway_speed_test := Some \<lparr> timestamp' = 0, fastestGateway = ''https://b.example'',
                        allResults = [(''https://b.example'', 50), (''https://a.example'', 300)] \<rparr>,
                     preferred_gateway := Some ''https://b.example'' \<rparr>"
  by (simp add: run_defs config_ABC_def env_ABC_def env_down_def empty_world_def upt_rec testUrl_def)

text \<open>
  Claim C4, as stated: with \<open>forceRefresh = false\<close> a persisted preferred gateway is returned
  only if it was measured less than an hour ago, and an older record makes the operation
  probe again. It fails: the pointer under \<open>PREFERRED_GATEWAY\<close> is a bare gateway text
  without a time, and \<open>getPreferredGateway\<close> returns it whenever it is not empty. Here the
  gateway is measured and persisted at time 0; two hours later the call returns it and
  issues no request.
\<close>

theorem getPreferredGateway_stale_pointer:
  "preferred_gateway (snd (getPreferredGateway config_ABC env_ABC False empty_world))
     = Some ''https://b.example''
   \<and> map_option timestamp'
         (gateway_speed_test (snd (getPreferredGateway config_ABC env_ABC False empty_world)))
       = Some 0
   \<and> clock (two_hours_later (snd (getPreferredGateway config_ABC env_ABC False empty_world)))
       = 2 * 60 * 60 * 1000
   \<and> getPreferredGateway config_ABC env_ABC False
        (two_hours_later (snd (getPreferredGateway config_ABC env_ABC False empty_world)))
       = (''https://b.example'',
          two_hours_later (snd (getPreferredGateway config_ABC env_ABC False empty_world)))
   \<and> requests (snd (getPreferredGateway config_ABC env_ABC False
          (two_hours_later (snd (getPreferredGateway config_ABC env_ABC False empty_world)))))
       = requests (snd (getPreferredGateway config_ABC env_ABC False empty_world))"
  unfolding getPreferredGateway_first_call
  by (simp add: getPreferredGateway_def two_hours_later_def empty_world_def)

text \<open>
  Claim C4, amended. With \<open>forceRefresh = false\<close>, a non-empty persisted pointer is returned
  as it is, whatever its age, and nothing is probed or written. Only without a pointer is
  the speed-test record consulted: measured less than an hour ago, its gateway is returned
  and becomes the pointer, again without a probe; an hour old or older, all configured
  gateways are probed.
\<close>

theorem getPreferredGateway_pointer_first:
  "(preferred_gateway w = Some g \<and> g \<noteq> []
      \<longrightarrow> getPreferredGateway cfg env False w = (g, w))
   \<and> (\<not> truthy (preferred_gateway w) \<and> gateway_speed_test w = Some r
        \<and> clock w - timestamp' r < 60 * 60 * 1000 \<and> fastestGateway r \<noteq> []
      \<longrightarrow> getPreferredGateway cfg env False w
            = (fastestGateway r, w\<lparr> preferred_gateway := Some (fastestGateway r) \<rparr>))
   \<and> (\<not> truthy (preferred_gateway w) \<and> gateway_speed_test w = Some r
        \<and> 60 * 60 * 1000 \<le> clock w - timestamp' r
      \<longrightarrow> requests (snd (getPreferredGateway cfg env False w))
            = requests w @ map (\<lambda>g. ProbeGet (testUrl g)) (IPFS_GATEWAYS cfg))"
  by (auto simp: getPreferredGateway_def findFastestGateway_def fresh_speed_test_def truthy_def
        after_speed_tests_def Let_def split: option.splits list.splits)

theorem getPreferredGateway_pointer_first_witness:
  "preferred_gateway world_stale = Some ''https://dweb.link/ipfs''
   \<and> ''https://dweb.link/ipfs'' \<noteq> []
   \<and> getPreferredGateway default_config env_ABC False world_stale
       = (''https://dweb.link/ipfs'', world_stale)
   \<and> \<not> truthy (preferred_gateway (world_stale\<lparr> preferred_gateway := None \<rparr>))
   \<and> requests (snd (getPreferredGateway config_ABC env_ABC False
                      (world_stale\<lparr> preferred_gateway := None \<rparr>)))
       = [ProbeGet (testUrl ''https://a.example''), ProbeGet (testUrl ''https://b.example''),
          ProbeGet (testUrl ''https://c.example'')]
   \<and> getPreferredGateway config_ABC env_ABC False
        (world_stale\<lparr> preferred_gateway := None, clock := 1000 \<rparr>)
       = (''https://dweb.link/ipfs'',
          world_stale\<lparr> preferred_gateway := Some ''https://dweb.link/ipfs'', clock := 1000 \<rparr>)"
proof -
  let ?r = "\<lparr> timestamp' = 0, fastestGateway = ''https://dweb.link/ipfs'',
             allResults = [(''https://dweb.link/ipfs'', 120)] \<rparr>"
  have a: "preferred_gateway world_stale = Some ''https://dweb.link/ipfs''"
    "\<not> truthy (preferred_gateway (world_stale\<lparr> preferred_gateway := None \<rparr>))"
    "\<not> truthy (preferred_gateway (world_stale\<lparr> preferred_gateway := None, clock := 1000 \<rparr>))"
    "gateway_speed_test (world_stale\<lparr> preferred_gateway := None \<rparr>) = Some ?r"
    "gateway_speed_test (world_stale\<lparr> preferred_gateway := None, clock := 1000 \<rparr>) = Some ?r"
    "clock (world_stale\<lparr> preferred_gateway := None \<rparr>) = 2 * 60 * 60 * 1000"
    "requests (world_stale\<lparr> preferred_gateway := None \<rparr>) = []"
    by (simp_all add: world_stale_def empty_world_def truthy_def)
  have g: "IPFS_GATEWAYS config_ABC = [''https://a.example'', ''https://b.example'', ''https://c.example'']"
    by (simp add: config_ABC_def)
  show ?thesis
    using a 
      getPreferredGateway_pointer_first [of world_stale "''https://dweb.link/ipfs''" default_config env_ABC ?r]
      getPreferredGateway_pointer_first [of "world_stale\<lparr> preferred_gateway := None \<rparr>" "[]" config_ABC env_ABC ?r]
      getPreferredGateway_pointer_first [of "world_stale\<lparr> preferred_gateway := None, clock := 1000 \<rparr>" "[]" config_ABC env_ABC ?r]
    by (simp add: g)
qed

section \<open>Facts about a download\<close>

lemma findFastestGateway_frame:
  "same_cache w (snd (findFastestGateway cfg env w))"
  "progress (snd (findFastestGateway cfg env w)) = progress w"
  "console_error (snd (findFastestGateway cfg env w)) = console_error w"
  by (simp_all add: findFastestGateway_def same_cache_def after_speed_tests_def Let_def
        split: option.splits list.splits)

lemma getPreferredGateway_frame:
  "same_cache w (snd (getPreferredGateway cfg env forceRefresh w))"
  "progress (snd (getPreferredGateway cfg env forceRefresh w)) = progress w"
  "console_error (snd (getPreferredGateway cfg env forceRefresh w)) = console_error w"
  using findFastestGateway_frame [where w = w and cfg = cfg and env = env]
  by (auto simp: getPreferredGateway_def same_cache_def split_def Let_def split: option.splits)

lemma start_download_fst:
  "fst (start_download env url base span w) = dl_outcome (download_reply env (length (requests w)) url)"
  by (simp add: start_download_def Let_def)

lemma start_download_frame:
  "requests (snd (start_download env url base span w)) = requests w @ [DownloadGet url]"
  "same_cache w (snd (start_download env url base span w))"
  "console_error (snd (start_download env url base span w)) = console_error w"
  "preferred_gateway (snd (start_download env url base span w)) = preferred_gateway w"
  by (simp_all add: start_download_def Let_def same_cache_def)

lemma report_frame:
  "requests (report p w) = requests w"
  "same_cache w (report p w)"
  "console_error (report p w) = console_error w"
  "preferred_gateway (report p w) = preferred_gateway w"
  "file_cache (report p w) = file_cache w"
  by (simp_all add: report_def same_cache_def)

lemma same_cache_trans: "same_cache w w' \<Longrightarrow> same_cache w' w'' \<Longrightarrow> same_cache w w''"
  by (simp add: same_cache_def)

lemma same_cache_refl: "same_cache w w"
  by (simp add: same_cache_def)


lemma downloadFromFilecoin_miss:
  assumes "skipCache \<or> \<not> truthy (file_cache w cid)"
  shows "downloadFromFilecoin cfg env cid skipCache w =
           (case download_preferred cfg env cid (report (Num 10) (report (Num 5) w)) of
              (Some base64Data, w1) \<Rightarrow> (Inr base64Data, w1)
            | (None, w1) \<Rightarrow> download_fallback cfg env cid 0 (IPFS_GATEWAYS cfg) None w1)"
  using assms
  by (auto simp: downloadFromFilecoin_def Let_def truthy_def report_def split: option.splits)

lemma download_preferred_fails:
  assumes pg: "getPreferredGateway cfg env False w0 = (preferredGateway, w1)"
    and pf: "attempt_throws (dl_outcome (download_reply env (length (requests w1))
                                          (preferredGateway @ ''/'' @ cid)))"
  shows "\<exists>w2. download_preferred cfg env cid w0 = (None, w2)
              \<and> length (requests w2) = Suc (length (requests w1))
              \<and> same_cache w0 w2 \<and> console_error w2 = console_error w0"
proof -
  let ?sd = "start_download env (preferredGateway @ ''/'' @ cid) 10 80 w1"
  have c1: "same_cache w0 w1" and e1: "console_error w1 = console_error w0"
    using getPreferredGateway_frame [where w = w0 and cfg = cfg and env = env and forceRefresh = False] pg by simp_all
  have c2: "same_cache w0 (snd ?sd)"
    using same_cache_trans [OF c1 start_download_frame(2)] .
  have c3: "same_cache w0 (report (Num 90) (snd ?sd))"
    using same_cache_trans [OF c2 report_frame(2)] .
  have f: "attempt_throws (fst ?sd)" using pf by (simp add: start_download_fst)
  show ?thesis
  proof (cases "fst ?sd")
    case (DlRejects msg)
    then show ?thesis
      using c2 e1 by (simp add: download_preferred_def pg split_def start_download_frame)
  next
    case DlNoResult
    then show ?thesis
      using c3 e1
      by (simp add: download_preferred_def pg split_def start_download_frame report_frame)
  next
    case (DlSaved st b)
    with f show ?thesis by (simp add: attempt_throws_def)
  qed
qed


lemma download_fallback_all_fail:
  assumes "\<forall>j < length gateways.
             attempt_throws (dl_outcome (download_reply env (length (requests w) + j)
                                          (gateways ! j @ ''/'' @ cid)))"
  shows "fst (download_fallback cfg env cid i gateways lastError w)
           = Inl (Error ''Failed to download from all IPFS gateways. Please try again later.'')
       \<and> same_cache w (snd (download_fallback cfg env cid i gateways lastError w))
       \<and> console_error (snd (download_fallback cfg env cid i gateways lastError w))
           = console_error w @
             [''All IPFS gateways failed: '' @
                (if gateways = [] then (case lastError of None \<Rightarrow> ''null'' | Some msg \<Rightarrow> msg)
                 else failure_message
                        (dl_outcome (download_reply env (length (requests w) + length gateways - 1)
                                       (last gateways @ ''/'' @ cid))))]"
  using assms
proof (induction gateways arbitrary: i lastError w)
  case Nil
  show ?case by (simp add: same_cache_def)
next
  case (Cons g gateways)
  let ?sd = "start_download env (g @ ''/'' @ cid) 20 70 w"
  let ?out = "dl_outcome (download_reply env (length (requests w)) (g @ ''/'' @ cid))"
  have o: "fst ?sd = ?out" by (rule start_download_fst)
  have f: "attempt_throws ?out"
    using Cons.prems [rule_format, of 0] by simp
  have step: "fst (download_fallback cfg env cid (Suc i) gateways (Some (failure_message ?out)) w')
           = Inl (Error ''Failed to download from all IPFS gateways. Please try again later.'')
       \<and> same_cache w (snd (download_fallback cfg env cid (Suc i) gateways (Some (failure_message ?out)) w'))
       \<and> console_error (snd (download_fallback cfg env cid (Suc i) gateways (Some (failure_message ?out)) w'))
           = console_error w @
             [''All IPFS gateways failed: '' @
                failure_message
                        (dl_outcome (download_reply env (length (requests w) + length (g # gateways) - 1)
                                       (last (g # gateways) @ ''/'' @ cid)))]"
    if l: "length (requests w') = Suc (length (requests w))" and c: "same_cache w w'"
      and e: "console_error w' = console_error w" for w' :: world
  proof -
    have a: "\<forall>j < length gateways.
             attempt_throws (dl_outcome (download_reply env (length (requests w') + j)
                                          (gateways ! j @ ''/'' @ cid)))"
    proof (intro allI impI)
      fix j assume "j < length gateways"
      then have "Suc j < length (g # gateways)" by simp
      from Cons.prems [rule_format, OF this] show
        "attempt_throws (dl_outcome (download_reply env (length (requests w') + j)
                                          (gateways ! j @ ''/'' @ cid)))"
        using l by simp
    qed
    note ih = Cons.IH [OF a, of "Suc i" "Some (failure_message ?out)"]
    show ?thesis
    proof (cases "gateways = []")
      case True
      with ih c e show ?thesis by (simp add: same_cache_def)
    next
      case False
      with ih c e l show ?thesis by (simp add: same_cache_def)
    qed
  qed
  have c1: "same_cache w (snd ?sd)" by (rule start_download_frame)
  show ?case
  proof (cases ?out)
    case (DlRejects msg)
    have "length (requests (report (Num (20 + (int i + 1) * 3)) (snd ?sd))) = Suc (length (requests w))"
      by (simp add: report_frame start_download_frame)
    moreover have "same_cache w (report (Num (20 + (int i + 1) * 3)) (snd ?sd))"
      using c1 by (simp add: same_cache_def report_def)
    moreover have "console_error (report (Num (20 + (int i + 1) * 3)) (snd ?sd)) = console_error w"
      by (simp add: report_frame start_download_frame)
    ultimately show ?thesis
      using step DlRejects o by (simp add: split_def failure_message_def del: last.simps)
  next
    case DlNoResult
    have "length (requests (report (Num (20 + (int i + 1) * 3)) (report (Num 90) (snd ?sd)))) = Suc (length (requests w))"
      by (simp add: report_frame start_download_frame)
    moreover have "same_cache w (report (Num (20 + (int i + 1) * 3)) (report (Num 90) (snd ?sd)))"
      using c1 by (simp add: same_cache_def report_def)
    moreover have "console_error (report (Num (20 + (int i + 1) * 3)) (report (Num 90) (snd ?sd))) = console_error w"
      by (simp add: report_frame start_download_frame)
    ultimately show ?thesis
      using step DlNoResult o by (simp add: split_def failure_message_def del: last.simps)
  next
    case (DlSaved st b)
    with f show ?thesis by (simp add: attempt_throws_def)
  qed
qed

section \<open>Download from the cache\<close>

text \<open>The download of an empty file on a fresh installation.\<close>

lemma downloadFromFilecoin_empty_file:
  "snd (downloadFromFilecoin default_config env_serving ''QmE'' False empty_world)
    = empty_world\<lparr> preferred_gateway := Some ''https://ipfs.io/ipfs'',
     file_cache := [''QmE'' \<mapsto> []],
     cache_index := Some [(''QmE'', \<lparr> size_bytes = 0, timestamp = 0 \<rparr>)],
     cache_size := Some 0,
     progress := [Num 5, Num 10, Num 90, Num 100],
     requests := map (\<lambda>g. ProbeGet (testUrl g)) (IPFS_GATEWAYS default_config) @ [DownloadGet ''https://ipfs.io/ipfs/QmE''] \<rparr>"
  by (simp add: run_defs env_serving_def env_down_def default_config_def empty_world_def upt_rec
      cache_result_def trackCachedFile_def read_index_def read_size_def progressPercent_def js_min_def
      IPFS_GATEWAY_URL_def)

text \<open>
  Claim C1, as stated: for every cid whose blob is present in the cache store, a download
  with \<open>skipCache = false\<close> makes no network call. It fails for a blob that is the empty
  text, the cached copy of an empty file: the test \<open>if (cachedData)\<close> takes it for a miss.
  Here an empty file is downloaded and cached; the next download of the same cid goes to
  the network again.
\<close>

theorem downloadFromFilecoin_empty_blob:
  "file_cache (snd (downloadFromFilecoin default_config env_serving ''QmE'' False empty_world)) ''QmE''
     = Some []
   \<and> requests (snd (downloadFromFilecoin default_config env_serving ''QmE'' False
        (snd (downloadFromFilecoin default_config env_serving ''QmE'' False empty_world))))
     = requests (snd (downloadFromFilecoin default_config env_serving ''QmE'' False empty_world))
       @ [DownloadGet ''https://ipfs.io/ipfs/QmE'']
   \<and> requests (snd (downloadFromFilecoin default_config env_serving ''QmE'' False
        (snd (downloadFromFilecoin default_config env_serving ''QmE'' False empty_world))))
     \<noteq> requests (snd (downloadFromFilecoin default_config env_serving ''QmE'' False empty_world))"
  unfolding downloadFromFilecoin_empty_file
  by (simp add: run_defs env_serving_def env_down_def default_config_def empty_world_def upt_rec
      cache_result_def trackCachedFile_def read_index_def read_size_def progressPercent_def js_min_def
      IPFS_GATEWAY_URL_def)

text \<open>
  Claim C1, amended. For every cid whose cached blob is not empty, a download with
  \<open>skipCache = false\<close> returns exactly the cached text, reports the progress values 5 and
  100, and changes nothing else: in particular no network request is issued.
\<close>

theorem downloadFromFilecoin_cache_hit:
  assumes "file_cache w cid = Some data" and "data \<noteq> []"
  shows "downloadFromFilecoin cfg env cid False w
           = (Inr data, w\<lparr> progress := progress w @ [Num 5, Num 100] \<rparr>)"
  using assms by (simp add: downloadFromFilecoin_def report_def Let_def)

theorem downloadFromFilecoin_cache_hit_witness:
  "file_cache world_A ''QmA'' = Some ''QUFB'' \<and> ''QUFB'' \<noteq> []
   \<and> downloadFromFilecoin default_config env_down ''QmA'' False world_A
       = (Inr ''QUFB'', world_A\<lparr> progress := progress world_A @ [Num 5, Num 100] \<rparr>)
   \<and> requests (world_A\<lparr> progress := progress world_A @ [Num 5, Num 100] \<rparr>) = requests world_A"
proof -
  have h: "file_cache world_A ''QmA'' = Some ''QUFB''" by (simp add: world_A_def)
  have n: "''QUFB'' \<noteq> []" by simp
  show ?thesis
    using h downloadFromFilecoin_cache_hit [OF h n, of default_config env_down] by simp
qed

section \<open>Fallback through the gateway list\<close>






section \<open>Exhaustion of the gateway list\<close>

text \<open>
  Claim C6, as stated: when every gateway fails, the download fails with an error that
  carries the last underlying gateway error as context, and writes nothing to the cache.
  It fails in two ways. The error thrown has one fixed message: two runs whose gateways
  fail for different reasons throw the same error. And a gateway that fails with an answer
  is not a failed attempt for the code: when no gateway has the file and each answers 404
  with an error page, the call throws nothing, returns the page of the first gateway asked
  and writes blob, index entry and running total for the cid.
\<close>

theorem downloadFromFilecoin_exhaustion_refuted:
  "fst (downloadFromFilecoin config_ABC env_down ''QmX'' False empty_world)
     = Inl (Error ''Failed to download from all IPFS gateways. Please try again later.'')
   \<and> fst (downloadFromFilecoin config_ABC env_slow ''QmX'' False empty_world)
     = Inl (Error ''Failed to download from all IPFS gateways. Please try again later.'')
   \<and> dl_outcome (fallback_reply config_ABC env_down ''QmX'' empty_world 2)
       = DlRejects ''Network Error''
   \<and> dl_outcome (fallback_reply config_ABC env_slow ''QmX'' empty_world 2)
       = DlRejects ''timeout of 60000ms exceeded''
   \<and> gateway_fails (dl_outcome (preferred_reply config_ABC env_not_found ''QmX'' empty_world))
   \<and> gateway_fails (dl_outcome (fallback_reply config_ABC env_not_found ''QmX'' empty_world 0))
   \<and> gateway_fails (dl_outcome (fallback_reply config_ABC env_not_found ''QmX'' empty_world 1))
   \<and> gateway_fails (dl_outcome (fallback_reply config_ABC env_not_found ''QmX'' empty_world 2))
   \<and> fst (downloadFromFilecoin config_ABC env_not_found ''QmX'' False empty_world)
       = Inr ''Tm90IEZvdW5k''
   \<and> file_cache (snd (downloadFromFilecoin config_ABC env_not_found ''QmX'' False empty_world)) ''QmX''
       = Some ''Tm90IEZvdW5k''
   \<and> cache_index (snd (downloadFromFilecoin config_ABC env_not_found ''QmX'' False empty_world))
       = Some [(''QmX'', \<lparr> size_bytes = 9, timestamp = 0 \<rparr>)]
   \<and> cache_size (snd (downloadFromFilecoin config_ABC env_not_found ''QmX'' False empty_world))
       = Some 9"
proof -
  have a: "fst (downloadFromFilecoin config_ABC env_down ''QmX'' False empty_world)
     = Inl (Error ''Failed to download from all IPFS gateways. Please try again later.'')
   \<and> fst (downloadFromFilecoin config_ABC env_slow ''QmX'' False empty_world)
     = Inl (Error ''Failed to download from all IPFS gateways. Please try again later.'')
   \<and> dl_outcome (fallback_reply config_ABC env_down ''QmX'' empty_world 2)
       = DlRejects ''Network Error''
   \<and> dl_outcome (fallback_reply config_ABC env_slow ''QmX'' empty_world 2)
       = DlRejects ''timeout of 60000ms exceeded''"
    by (simp add: run_defs fallback_reply_def config_ABC_def env_down_def env_slow_def
        empty_world_def upt_rec)
  have b: "gateway_fails (dl_outcome (preferred_reply config_ABC env_not_found ''QmX'' empty_world))
   \<and> gateway_fails (dl_outcome (fallback_reply config_ABC env_not_found ''QmX'' empty_world 0))
   \<and> gateway_fails (dl_outcome (fallback_reply config_ABC env_not_found ''QmX'' empty_world 1))
   \<and> gateway_fails (dl_outcome (fallback_reply config_ABC env_not_found ''QmX'' empty_world 2))"
    by (simp add: preferred_reply_def fallback_reply_def split_def env_not_found_def
        gateway_fails_def)
  have c: "fst (downloadFromFilecoin config_ABC env_not_found ''QmX'' False empty_world)
       = Inr ''Tm90IEZvdW5k''
   \<and> file_cache (snd (downloadFromFilecoin config_ABC env_not_found ''QmX'' False empty_world)) ''QmX''
       = Some ''Tm90IEZvdW5k''
   \<and> cache_index (snd (downloadFromFilecoin config_ABC env_not_found ''QmX'' False empty_world))
       = Some [(''QmX'', \<lparr> size_bytes = 9, timestamp = 0 \<rparr>)]
   \<and> cache_size (snd (downloadFromFilecoin config_ABC env_not_found ''QmX'' False empty_world))
       = Some 9"
    by (simp add: run_defs env_not_found_def env_down_def config_ABC_def default_config_def
        empty_world_def upt_rec cache_result_def trackCachedFile_def read_index_def read_size_def
        progressPercent_def js_min_def IPFS_GATEWAY_URL_def)
  from a b c show ?thesis by simp
qed

text \<open>
  Claim C6, amended. When the download misses the cache and the attempt on the preferred
  gateway and the attempts on all gateways of the list throw (the download rejects or
  resolves without a result), \<open>downloadFromFilecoin\<close> fails with the error of the fixed
  message "Failed to download from all IPFS gateways. Please try again later."; the message
  of the error of the last gateway of the list is written to the error log only (\<open>null\<close>
  for an empty list); blobs, index and running total are as before the call.
\<close>

theorem downloadFromFilecoin_exhausted:
  assumes miss: "skipCache \<or> \<not> truthy (file_cache w cid)"
    and pf: "attempt_throws (dl_outcome (preferred_reply cfg env cid w))"
    and ff: "\<forall>i < length (IPFS_GATEWAYS cfg).
               attempt_throws (dl_outcome (fallback_reply cfg env cid w i))"
  shows "fst (downloadFromFilecoin cfg env cid skipCache w)
           = Inl (Error ''Failed to download from all IPFS gateways. Please try again later.'')
       \<and> file_cache (snd (downloadFromFilecoin cfg env cid skipCache w)) = file_cache w
       \<and> cache_index (snd (downloadFromFilecoin cfg env cid skipCache w)) = cache_index w
       \<and> cache_size (snd (downloadFromFilecoin cfg env cid skipCache w)) = cache_size w
       \<and> console_error (snd (downloadFromFilecoin cfg env cid skipCache w))
           = console_error w @
             [''All IPFS gateways failed: '' @
                (if IPFS_GATEWAYS cfg = [] then ''null''
                 else failure_message
                        (dl_outcome (fallback_reply cfg env cid w (length (IPFS_GATEWAYS cfg) - 1))))]"
proof -
  let ?w0 = "report (Num 10) (report (Num 5) w)"
  obtain g w1 where pg: "getPreferredGateway cfg env False ?w0 = (g, w1)"
    by (cases "getPreferredGateway cfg env False ?w0")
  have pf': "attempt_throws (dl_outcome (download_reply env (length (requests w1)) (g @ ''/'' @ cid)))"
    using pf by (simp add: preferred_reply_def pg)
  obtain w2 where w2: "download_preferred cfg env cid ?w0 = (None, w2)"
    and l2: "length (requests w2) = Suc (length (requests w1))"
    and c2: "same_cache ?w0 w2" and e2: "console_error w2 = console_error ?w0"
    using download_preferred_fails [OF pg pf'] by blast
  have a: "\<forall>j < length (IPFS_GATEWAYS cfg).
             attempt_throws (dl_outcome (download_reply env (length (requests w2) + j)
                                          (IPFS_GATEWAYS cfg ! j @ ''/'' @ cid)))"
    using ff l2 by (simp add: fallback_reply_def pg)
  have c0: "same_cache w w2"
    using c2 by (simp add: same_cache_def report_def)
  have e0: "console_error w2 = console_error w"
    using e2 by (simp add: report_def)
  have res: "downloadFromFilecoin cfg env cid skipCache w
               = download_fallback cfg env cid 0 (IPFS_GATEWAYS cfg) None w2"
    by (simp add: downloadFromFilecoin_miss [OF miss] w2)
  show ?thesis
  proof (cases "IPFS_GATEWAYS cfg = []")
    case True
    then show ?thesis
      unfolding res using c0 e0 by (simp add: same_cache_def)
  next
    case ne: False
    have k: "length (requests w2) + length (IPFS_GATEWAYS cfg) - 1
               = length (requests w1) + 1 + (length (IPFS_GATEWAYS cfg) - 1)"
      using ne l2 by (cases "IPFS_GATEWAYS cfg") simp_all
    have l: "IPFS_GATEWAYS cfg ! (length (IPFS_GATEWAYS cfg) - 1) = last (IPFS_GATEWAYS cfg)"
      using ne by (simp add: last_conv_nth)
    have m: "dl_outcome (fallback_reply cfg env cid w (length (IPFS_GATEWAYS cfg) - 1))
           = dl_outcome (download_reply env (length (requests w2) + length (IPFS_GATEWAYS cfg) - 1)
                                         (last (IPFS_GATEWAYS cfg) @ ''/'' @ cid))"
      unfolding fallback_reply_def pg split_conv Let_def k l ..
    show ?thesis
      unfolding res m
      using download_fallback_all_fail [OF a, of cfg 0 None] ne c0 e0
      by (simp add: same_cache_def)
  qed
qed

theorem downloadFromFilecoin_exhausted_witness:
  "\<not> truthy (file_cache empty_world ''QmX'')
   \<and> attempt_throws (dl_outcome (preferred_reply config_ABC env_slow ''QmX'' empty_world))
   \<and> attempt_throws (dl_outcome (fallback_reply config_ABC env_slow ''QmX'' empty_world 0))
   \<and> attempt_throws (dl_outcome (fallback_reply config_ABC env_slow ''QmX'' empty_world 1))
   \<and> attempt_throws (dl_outcome (fallback_reply config_ABC env_slow ''QmX'' empty_world 2))
   \<and> fst (downloadFromFilecoin config_ABC env_slow ''QmX'' False empty_world)
       = Inl (Error ''Failed to download from all IPFS gateways. Please try again later.'')
   \<and> file_cache (snd (downloadFromFilecoin config_ABC env_slow ''QmX'' False empty_world)) = Map.empty
   \<and> cache_index (snd (downloadFromFilecoin config_ABC env_slow ''QmX'' False empty_world)) = None
   \<and> cache_size (snd (downloadFromFilecoin config_ABC env_slow ''QmX'' False empty_world)) = None
   \<and> console_error (snd (downloadFromFilecoin config_ABC env_slow ''QmX'' False empty_world))
       = [''All IPFS gateways failed: timeout of 60000ms exceeded'']"
proof -
  have g: "IPFS_GATEWAYS config_ABC = [''https://a.example'', ''https://b.example'', ''https://c.example'']"
    by (simp add: config_ABC_def)
  have miss: "False \<or> \<not> truthy (file_cache empty_world ''QmX'')"
    by (simp add: truthy_def empty_world_def)
  have ne: "IPFS_GATEWAYS config_ABC \<noteq> []" by (simp add: g)
  have d: "download_reply env_slow = (\<lambda>n url.
        \<lparr> dl_events = [], dl_outcome = DlRejects ''timeout of 60000ms exceeded'' \<rparr>)"
    by (simp add: env_slow_def)
  have pf: "attempt_throws (dl_outcome (preferred_reply config_ABC env_slow ''QmX'' empty_world))"
    by (simp add: preferred_reply_def split_def d attempt_throws_def)
  have fi: "attempt_throws (dl_outcome (fallback_reply config_ABC env_slow ''QmX'' empty_world i))" for i
    by (simp add: fallback_reply_def split_def d attempt_throws_def)
  have ff: "\<forall>i < length (IPFS_GATEWAYS config_ABC).
               attempt_throws (dl_outcome (fallback_reply config_ABC env_slow ''QmX'' empty_world i))"
    using fi by simp
  have m: "failure_message (dl_outcome (fallback_reply config_ABC env_slow ''QmX'' empty_world
             (length (IPFS_GATEWAYS config_ABC) - 1))) = ''timeout of 60000ms exceeded''"
    by (simp add: fallback_reply_def split_def d failure_message_def)
  have e: "file_cache empty_world = Map.empty" "cache_index empty_world = None"
    "cache_size empty_world = None" "console_error empty_world = []"
    by (simp_all add: empty_world_def)
  show ?thesis
    using miss ne pf fi [of 0] fi [of 1] fi [of 2]
      downloadFromFilecoin_exhausted [OF miss pf ff]
    unfolding m e by simp
qed

section \<open>Progress reports of a download\<close>

lemma js_min_progressPercent:
  "0 < snd ev \<Longrightarrow> js_min (progressPercent base span ev) 90 = Num (percent base span ev)"
  by (simp add: js_min_def progressPercent_def percent_def)

lemma percent_bounds:
  assumes e: "0 < snd ev" and s: "0 \<le> span"
  shows "base \<le> percent base span ev \<or> 90 \<le> percent base span ev" and "percent base span ev \<le> 90"
proof -
  let ?e = "snd ev" and ?w = "int (fst ev)"
  have "0 \<le> 2 * span * ?w + ?e" using e s by simp
  then have "base * (2 * ?e) \<le> 2 * base * ?e + 2 * span * ?w + ?e" by simp
  then have "(base * (2 * ?e)) div (2 * ?e) \<le> (2 * base * ?e + 2 * span * ?w + ?e) div (2 * ?e)"
    using e by (intro zdiv_mono1) simp_all
  moreover have "(base * (2 * ?e)) div (2 * ?e) = base" using e by simp
  ultimately have "base \<le> (2 * base * ?e + 2 * span * ?w + ?e) div (2 * ?e)" by simp
  then show "base \<le> percent base span ev \<or> 90 \<le> percent base span ev"
    by (auto simp: percent_def min_def)
  show "percent base span ev \<le> 90" by (simp add: percent_def)
qed

lemma percent_mono:
  assumes "0 < snd a" and "fst a \<le> fst b" and "snd a = snd b" and "0 \<le> span"
  shows "percent base span a \<le> percent base span b"
proof -
  have "2 * span * int (fst a) \<le> 2 * span * int (fst b)"
    using assms by (intro mult_left_mono) simp_all
  then have "(2 * base * snd b + 2 * span * int (fst a) + snd b) div (2 * snd b)
      \<le> (2 * base * snd b + 2 * span * int (fst b) + snd b) div (2 * snd b)"
    using assms by (intro zdiv_mono1) simp_all
  then show ?thesis using assms by (simp add: percent_def min_def)
qed

lemma in_range_map_Num: "list_all in_range (map Num ps) = list_all (\<lambda>p. 0 \<le> p \<and> p \<le> 100) ps"
  by (induction ps) simp_all

lemma non_decreasing_map_Num: "non_decreasing (map Num ps) = sorted ps"
  by (simp add: non_decreasing_def sorted_wrt_map)

lemma events_percents:
  assumes "events_ok evs"
  shows "map (\<lambda>ev. js_min (progressPercent base span ev) 90) evs = map Num (map (percent base span) evs)"
  using assms by (induction evs) (simp_all add: events_ok_def js_min_progressPercent)

lemma percents_in_range:
  assumes "events_ok evs" and "0 \<le> base" and "0 \<le> span"
  shows "list_all (\<lambda>p. (base \<le> p \<or> 90 \<le> p) \<and> p \<le> 90) (map (percent base span) evs)"
  using assms percent_bounds [of _ span base]
  by (auto simp: events_ok_def list_all_iff)

lemma percents_sorted:
  assumes "events_ok evs" and "steady evs" and "0 \<le> span"
  shows "sorted (map (percent base span) evs)"
proof -
  have "sorted_wrt (\<lambda>a b. percent base span a \<le> percent base span b) evs"
    using assms unfolding steady_def events_ok_def list_all_iff
    by (induction evs) (auto intro: percent_mono)
  then show ?thesis by (simp add: sorted_wrt_map)
qed

lemma reports_more_refl: "progress w' = progress w \<Longrightarrow> reports_more w w'"
  by (simp add: reports_more_def)

lemma reports_more_trans:
  assumes "reports_more w w'" and "reports_more w' w''"
  shows "reports_more w w''"
proof -
  obtain ps where ps: "progress w' = progress w @ map Num ps" "list_all (\<lambda>p. 0 \<le> p \<and> p \<le> 100) ps"
    using assms(1) by (auto simp: reports_more_def)
  obtain qs where qs: "progress w'' = progress w' @ map Num qs" "list_all (\<lambda>p. 0 \<le> p \<and> p \<le> 100) qs"
    using assms(2) by (auto simp: reports_more_def)
  have "progress w'' = progress w @ map Num (ps @ qs)" using ps qs by simp
  moreover have "list_all (\<lambda>p. 0 \<le> p \<and> p \<le> 100) (ps @ qs)" using ps qs by simp
  ultimately show ?thesis unfolding reports_more_def by blast
qed

lemma reports_more_report:
  assumes "0 \<le> p" and "p \<le> 100"
  shows "reports_more w (report (Num p) w)"
proof -
  have "progress (report (Num p) w) = progress w @ map Num [p]" by (simp add: report_def)
  moreover have "list_all (\<lambda>p. 0 \<le> p \<and> p \<le> 100) [p]" using assms by simp
  ultimately show ?thesis unfolding reports_more_def by blast
qed

lemma progress_start_download:
  assumes "events_ok (dl_events (download_reply env (length (requests w)) url))"
  shows "progress (snd (start_download env url base span w))
           = progress w @ map Num (map (percent base span)
                                     (dl_events (download_reply env (length (requests w)) url)))"
  by (simp add: start_download_def Let_def events_percents [OF assms])

lemma reports_more_start_download:
  assumes ev: "events_ok (dl_events (download_reply env (length (requests w)) url))"
    and b: "0 \<le> base" and s: "0 \<le> span"
  shows "reports_more w (snd (start_download env url base span w))"
proof -
  have "list_all (\<lambda>p. 0 \<le> p \<and> p \<le> 100)
          (map (percent base span) (dl_events (download_reply env (length (requests w)) url)))"
    using percents_in_range [OF ev b s] b by (auto simp: list_all_iff)
  then show ?thesis
    unfolding reports_more_def using progress_start_download [OF ev] by blast
qed

lemma progress_cache_result: "progress (cache_result cfg cid base64Data w) = progress w"
  using trackCachedFile_surroundings
    [of "w\<lparr> file_cache := (file_cache w)(cid \<mapsto> base64Data) \<rparr>" cfg cid
        "3 * int (length base64Data) div 4"]
  by (simp add: cache_result_def same_surroundings_def)

text \<open>An attempt that leaves a file reports 90 and 100, whether the blob is stored or not.\<close>

lemma progress_saved:
  "progress (report (Num 100)
        ((cache_result cfg cid base64Data (report (Num 90) w))\<lparr> files := fs \<rparr>))
     = progress w @ map Num [90, 100]"
  "progress (report (Num 100)
        ((cache_result cfg cid base64Data (report (Num 90) w))
           \<lparr> preferred_gateway := pg, files := fs \<rparr>))
     = progress w @ map Num [90, 100]"
  "progress (report (Num 100) ((report (Num 90) w)\<lparr> files := fs \<rparr>))
     = progress w @ map Num [90, 100]"
  by (simp_all add: report_def progress_cache_result [unfolded report_def])

lemma reports_more_saved:
  "reports_more w
     (report (Num 100)
        ((cache_result cfg cid base64Data (report (Num 90) w))\<lparr> files := fs \<rparr>))"
  "reports_more w
     (report (Num 100)
        ((cache_result cfg cid base64Data (report (Num 90) w))
           \<lparr> preferred_gateway := pg, files := fs \<rparr>))"
  "reports_more w (report (Num 100) ((report (Num 90) w)\<lparr> files := fs \<rparr>))"
  unfolding reports_more_def progress_saved
  by (intro exI [of _ "[90, 100]"]; simp)+

lemma download_fallback_reports:
  assumes ev: "\<forall>n url. events_ok (dl_events (download_reply env n url))"
    and k: "3 * (i + length gateways) \<le> 80"
  shows "reports_more w (snd (download_fallback cfg env cid i gateways lastError w))"
  using k
proof (induction gateways arbitrary: i lastError w)
  case Nil
  show ?case by (simp add: reports_more_refl)
next
  case (Cons g gateways)
  let ?sd = "start_download env (g @ ''/'' @ cid) 20 70 w"
  have e: "events_ok (dl_events (download_reply env (length (requests w)) (g @ ''/'' @ cid)))"
    using ev by simp
  have s: "reports_more w (snd ?sd)"
    by (rule reports_more_start_download [OF e]) simp_all
  have m: "0 \<le> 20 + (int i + 1) * 3" "20 + (int i + 1) * 3 \<le> 100"
    using Cons.prems by simp_all
  have k': "3 * (Suc i + length gateways) \<le> 80" using Cons.prems by simp
  note ih = Cons.IH [OF k']
  show ?case
  proof (cases "fst ?sd")
    case (DlRejects msg)
    have "reports_more w (report (Num (20 + (int i + 1) * 3)) (snd ?sd))"
      using reports_more_trans [OF s reports_more_report [OF m]] .
    from reports_more_trans [OF this ih] show ?thesis
      using DlRejects by (simp add: split_def)
  next
    case DlNoResult
    have "reports_more w (report (Num 90) (snd ?sd))"
      using reports_more_trans [OF s reports_more_report [of 90]] by simp
    then have "reports_more w (report (Num (20 + (int i + 1) * 3)) (report (Num 90) (snd ?sd)))"
      using reports_more_trans [OF _ reports_more_report [OF m]] by blast
    from reports_more_trans [OF this ih] show ?thesis
      using DlNoResult by (simp add: split_def)
  next
    case (DlSaved st b)
    show ?thesis
    proof (cases "blob_write_error env cid b")
      case None
      then show ?thesis
        using DlSaved reports_more_trans [OF s reports_more_saved(2)]
        by (simp add: split_def Let_def)
    next
      case (Some cacheError)
      then show ?thesis
        using DlSaved reports_more_trans [OF s reports_more_saved(3)]
        by (simp add: split_def Let_def)
    qed
  qed
qed

lemma progress_getPreferredGateway:
  "progress (snd (getPreferredGateway cfg env forceRefresh w)) = progress w"
  by (rule getPreferredGateway_frame)

lemma download_preferred_reports:
  assumes ev: "\<forall>n url. events_ok (dl_events (download_reply env n url))"
  shows "reports_more w (snd (download_preferred cfg env cid w))"
proof -
  obtain g w1 where pg: "getPreferredGateway cfg env False w = (g, w1)"
    by (cases "getPreferredGateway cfg env False w")
  let ?sd = "start_download env (g @ ''/'' @ cid) 10 80 w1"
  have p1: "reports_more w w1"
    using progress_getPreferredGateway [of cfg env False w] pg by (simp add: reports_more_refl)
  have e: "events_ok (dl_events (download_reply env (length (requests w1)) (g @ ''/'' @ cid)))"
    using ev by simp
  have s: "reports_more w (snd ?sd)"
    using reports_more_trans [OF p1 reports_more_start_download [OF e]] by simp
  show ?thesis
  proof (cases "fst ?sd")
    case (DlRejects msg)
    then show ?thesis using s by (simp add: download_preferred_def pg split_def)
  next
    case DlNoResult
    then show ?thesis
      using reports_more_trans [OF s reports_more_report [of 90]]
      by (simp add: download_preferred_def pg split_def)
  next
    case (DlSaved st b)
    show ?thesis
    proof (cases "blob_write_error env cid b")
      case None
      then show ?thesis
        using DlSaved reports_more_trans [OF s reports_more_saved(1)]
        by (simp add: download_preferred_def pg split_def Let_def)
    next
      case (Some cacheError)
      then show ?thesis
        using DlSaved reports_more_trans [OF s reports_more_saved(3)]
        by (simp add: download_preferred_def pg split_def Let_def)
    qed
  qed
qed

lemma downloadFromFilecoin_reports:
  assumes ev: "\<forall>n url. events_ok (dl_events (download_reply env n url))"
    and k: "3 * length (IPFS_GATEWAYS cfg) \<le> 80"
  shows "reports_more w (snd (downloadFromFilecoin cfg env cid skipCache w))"
proof (cases "skipCache \<or> \<not> truthy (file_cache w cid)")
  case True
  let ?w0 = "report (Num 10) (report (Num 5) w)"
  have a: "reports_more w ?w0"
    using reports_more_trans [OF reports_more_report [of 5] reports_more_report [of 10]] by simp
  have b: "reports_more w (snd (download_preferred cfg env cid ?w0))"
    using reports_more_trans [OF a download_preferred_reports [OF ev]] .
  have k0: "3 * (0 + length (IPFS_GATEWAYS cfg)) \<le> 80" using k by simp
  show ?thesis
  proof (cases "fst (download_preferred cfg env cid ?w0)")
    case None
    then show ?thesis
      using reports_more_trans [OF b download_fallback_reports [OF ev k0]]
      by (simp add: downloadFromFilecoin_miss [OF True] split_def)
  next
    case (Some d)
    then show ?thesis
      using b by (simp add: downloadFromFilecoin_miss [OF True] split_def)
  qed
next
  case False
  then obtain d where d: "file_cache w cid = Some d" "d \<noteq> []" "\<not> skipCache"
    by (auto simp: truthy_def split: option.splits)
  have "reports_more w (report (Num 100) (report (Num 5) w))"
    using reports_more_trans [OF reports_more_report [of 5] reports_more_report [of 100]] by simp
  then show ?thesis
    using d by (simp add: downloadFromFilecoin_def Let_def report_def)
qed

lemma map_Num_eq: "(map Num ps = map Num qs) = (ps = qs)"
  by (simp add: inj_map_eq_map inj_on_def)

lemma downloadFromFilecoin_hit_progress:
  assumes "\<not> skipCache" and "truthy (file_cache w cid)"
  shows "progress (snd (downloadFromFilecoin cfg env cid skipCache w)) = progress w @ map Num [5, 100]"
  using assms
  by (auto simp: downloadFromFilecoin_def Let_def report_def truthy_def split: option.splits)

lemma downloadFromFilecoin_preferred_progress:
  assumes miss: "skipCache \<or> \<not> truthy (file_cache w cid)"
    and ok: "\<not> attempt_throws (dl_outcome (preferred_reply cfg env cid w))"
    and ev: "events_ok (dl_events (preferred_reply cfg env cid w))"
  shows "progress (snd (downloadFromFilecoin cfg env cid skipCache w))
           = progress w @ map Num ([5, 10] @ map (percent 10 80) (dl_events (preferred_reply cfg env cid w))
                                    @ [90, 100])"
proof -
  let ?w0 = "report (Num 10) (report (Num 5) w)"
  obtain g w1 where pg: "getPreferredGateway cfg env False ?w0 = (g, w1)"
    by (cases "getPreferredGateway cfg env False ?w0")
  let ?r = "download_reply env (length (requests w1)) (g @ ''/'' @ cid)"
  have r: "preferred_reply cfg env cid w = ?r" by (simp add: preferred_reply_def pg)
  obtain st b where b: "dl_outcome ?r = DlSaved st b"
    using ok unfolding r by (cases "dl_outcome ?r") (simp_all add: attempt_throws_def)
  have p1: "progress w1 = progress w @ map Num [5, 10]"
    using progress_getPreferredGateway [of cfg env False ?w0] pg by (simp add: report_def)
  have e: "events_ok (dl_events ?r)" using ev unfolding r .
  let ?sd = "start_download env (g @ ''/'' @ cid) 10 80 w1"
  have sd: "progress (snd ?sd) = progress w1 @ map Num (map (percent 10 80) (dl_events ?r))"
    by (rule progress_start_download [OF e])
  have f: "fst ?sd = DlSaved st b"
    using b by (simp add: start_download_fst)
  have dp: "fst (download_preferred cfg env cid ?w0) = Some b
          \<and> progress (snd (download_preferred cfg env cid ?w0))
              = progress (snd ?sd) @ map Num [90, 100]"
  proof (cases "blob_write_error env cid b")
    case None
    then show ?thesis
      using f progress_saved(1) [where cfg = cfg and cid = cid and ?base64Data = b and w = "snd ?sd"]
      by (simp add: download_preferred_def pg split_def Let_def)
  next
    case (Some cacheError)
    then show ?thesis
      using f progress_saved(3) [where w = "snd ?sd"]
      by (simp add: download_preferred_def pg split_def Let_def)
  qed
  then obtain w2 where w2: "download_preferred cfg env cid ?w0 = (Some b, w2)"
    by (cases "download_preferred cfg env cid ?w0") simp
  have res: "snd (downloadFromFilecoin cfg env cid skipCache w) = w2"
    by (simp add: downloadFromFilecoin_miss [OF miss] w2)
  have "progress w2 = progress (snd ?sd) @ map Num [90, 100]"
    using dp by (simp add: w2)
  then show ?thesis
    unfolding r res using sd p1 by simp
qed

lemma sorted_percents:
  assumes "events_ok evs" and "steady evs"
  shows "sorted ([5, 10] @ map (percent 10 80) evs @ [90, 100])"
proof -
  have s: "sorted (map (percent 10 80) evs)"
    by (rule percents_sorted [OF assms]) simp
  have b: "\<forall>p \<in> set (map (percent 10 80) evs). 10 \<le> p \<and> p \<le> 90"
    using percents_in_range [OF assms(1), of 10 80] by (auto simp: list_all_iff)
  show ?thesis
    using s b by (auto simp: sorted_append)
qed

text \<open>
  Claim C8, as stated: in every execution of \<open>downloadFromFilecoin\<close>, also when attempts
  fail after reporting progress, the values passed to \<open>onProgress\<close> are integers from 0 to
  100 that never decrease. It fails in these runs, each with the preferred gateway given:
  \<^item> an attempt that reported 55 and then failed is followed by the report 23
    (\<open>20 + (i + 1) * 3\<close>), and the next attempt would map its progress from 20 again;
  \<^item> for a transfer without content length the expected total is -1, which makes the
    reported value negative;
  \<^item> a successful transfer whose expected total grows from 10 to 100 reports 50 and then 15;
  \<^item> a successful transfer whose count of bytes written falls from 6 to 5 reports 58 and
    then 50;
  \<^item> with 27 gateways that all fail, the last report is \<open>20 + 27 * 3 = 101\<close>.
\<close>

theorem downloadFromFilecoin_progress_drops:
  "progress (snd (downloadFromFilecoin config_ABC env_partial ''QmX'' False (world_P ''https://b.example'')))
     = [Num 5, Num 10, Num 55, Num 23, Num 26, Num 29]
   \<and> \<not> non_decreasing [Num 5, Num 10, Num 55, Num 23, Num 26, Num 29]
   \<and> progress (snd (downloadFromFilecoin config_ABC env_unknown_length ''QmX'' False (world_P ''https://b.example'')))
     = [Num 5, Num 10, Num (- 79990), Num 90, Num 100]
   \<and> \<not> list_all in_range [Num 5, Num 10, Num (- 79990), Num 90, Num 100]
   \<and> progress (snd (downloadFromFilecoin config_ABC env_growing_total ''QmX'' False (world_P ''https://b.example'')))
     = [Num 5, Num 10, Num 50, Num 15, Num 90, Num 100]
   \<and> \<not> non_decreasing [Num 5, Num 10, Num 50, Num 15, Num 90, Num 100]
   \<and> progress (snd (downloadFromFilecoin config_ABC env_restarting ''QmX'' False (world_P ''https://b.example'')))
     = [Num 5, Num 10, Num 58, Num 50, Num 90, Num 100]
   \<and> \<not> non_decreasing [Num 5, Num 10, Num 58, Num 50, Num 90, Num 100]
   \<and> length (IPFS_GATEWAYS config_27) = 27
   \<and> last (progress (snd (downloadFromFilecoin config_27 env_down ''QmX'' False (world_P ''https://a.example''))))
     = Num 101
   \<and> \<not> in_range (Num 101)"
proof -
  have a: "progress (snd (downloadFromFilecoin config_ABC env_partial ''QmX'' False (world_P ''https://b.example'')))
     = [Num 5, Num 10, Num 55, Num 23, Num 26, Num 29]
   \<and> \<not> non_decreasing [Num 5, Num 10, Num 55, Num 23, Num 26, Num 29]
   \<and> progress (snd (downloadFromFilecoin config_ABC env_unknown_length ''QmX'' False (world_P ''https://b.example'')))
     = [Num 5, Num 10, Num (- 79990), Num 90, Num 100]
   \<and> \<not> list_all in_range [Num 5, Num 10, Num (- 79990), Num 90, Num 100]"
    by (simp add: run_defs config_ABC_def env_partial_def env_unknown_length_def env_down_def world_P_def
        empty_world_def progressPercent_def js_min_def non_decreasing_def
        progress_cache_result [unfolded report_def])
  have b: "progress (snd (downloadFromFilecoin config_ABC env_growing_total ''QmX'' False (world_P ''https://b.example'')))
     = [Num 5, Num 10, Num 50, Num 15, Num 90, Num 100]
   \<and> \<not> non_decreasing [Num 5, Num 10, Num 50, Num 15, Num 90, Num 100]
   \<and> progress (snd (downloadFromFilecoin config_ABC env_restarting ''QmX'' False (world_P ''https://b.example'')))
     = [Num 5, Num 10, Num 58, Num 50, Num 90, Num 100]
   \<and> \<not> non_decreasing [Num 5, Num 10, Num 58, Num 50, Num 90, Num 100]"
    by (simp add: run_defs config_ABC_def env_growing_total_def env_restarting_def env_down_def world_P_def
        empty_world_def progressPercent_def js_min_def non_decreasing_def
        progress_cache_result [unfolded report_def])
  have c: "length (IPFS_GATEWAYS config_27) = 27
   \<and> last (progress (snd (downloadFromFilecoin config_27 env_down ''QmX'' False (world_P ''https://a.example''))))
     = Num 101"
    by (simp add: run_defs config_27_def env_down_def world_P_def empty_world_def
        eval_nat_numeral)
  from a b c show ?thesis by simp
qed

text \<open>
  Claim C8, amended. In every execution of \<open>downloadFromFilecoin\<close> in surroundings whose
  progress events all have a positive expected total, with a gateway list of at most 26
  entries, the values passed to \<open>onProgress\<close> are finitely many integers from 0 to 100. They
  never decrease when no attempt throws: when the call is answered from the cache, or when
  the attempt on the preferred gateway leaves a file and its progress events are steady,
  that is, the bytes written never decrease and the expected total does not change.
\<close>

theorem downloadFromFilecoin_progress:
  assumes ev: "\<forall>n url. events_ok (dl_events (download_reply env n url))"
    and k: "3 * length (IPFS_GATEWAYS cfg) \<le> 80"
  shows "\<exists>new. progress (snd (downloadFromFilecoin cfg env cid skipCache w)) = progress w @ new
            \<and> list_all in_range new
            \<and> ((\<not> skipCache \<and> truthy (file_cache w cid))
                \<or> (\<not> attempt_throws (dl_outcome (preferred_reply cfg env cid w))
                    \<and> steady (dl_events (preferred_reply cfg env cid w)))
               \<longrightarrow> non_decreasing new)"
proof -
  obtain ps where ps: "progress (snd (downloadFromFilecoin cfg env cid skipCache w)) = progress w @ map Num ps"
    and r: "list_all (\<lambda>p. 0 \<le> p \<and> p \<le> 100) ps"
    using downloadFromFilecoin_reports [OF ev k, of w cid skipCache]
    by (auto simp: reports_more_def)
  have e: "events_ok (dl_events (preferred_reply cfg env cid w))"
    using ev by (simp add: preferred_reply_def split_def Let_def)
  have "sorted ps"
    if h: "(\<not> skipCache \<and> truthy (file_cache w cid))
                \<or> (\<not> attempt_throws (dl_outcome (preferred_reply cfg env cid w))
                    \<and> steady (dl_events (preferred_reply cfg env cid w)))"
  proof (cases "\<not> skipCache \<and> truthy (file_cache w cid)")
    case True
    then have "map Num ps = map Num [5, 100]"
      using downloadFromFilecoin_hit_progress [of skipCache w cid cfg env] ps by simp
    then have "ps = [5, 100]" unfolding map_Num_eq .
    then show ?thesis by simp
  next
    case False
    then have miss: "skipCache \<or> \<not> truthy (file_cache w cid)" by blast
    from False h have ok: "\<not> attempt_throws (dl_outcome (preferred_reply cfg env cid w))"
      and st: "steady (dl_events (preferred_reply cfg env cid w))" by blast+
    have "map Num ps
            = map Num ([5, 10] @ map (percent 10 80) (dl_events (preferred_reply cfg env cid w))
                        @ [90, 100])"
      using downloadFromFilecoin_preferred_progress [OF miss ok e] ps by simp
    then have "ps = [5, 10] @ map (percent 10 80) (dl_events (preferred_reply cfg env cid w)) @ [90, 100]"
      unfolding map_Num_eq .
    then show ?thesis using sorted_percents [OF e st] by simp
  qed
  then show ?thesis
    using ps r by (intro exI [of _ "map Num ps"]) (simp add: in_range_map_Num non_decreasing_map_Num)
qed

theorem downloadFromFilecoin_progress_witness:
  "(\<forall>n url. events_ok (dl_events (download_reply env_C_serves n url)))
   \<and> 3 * length (IPFS_GATEWAYS config_ABC) \<le> 80
   \<and> \<not> attempt_throws (dl_outcome (preferred_reply config_ABC env_C_serves ''QmX''
                                       (world_P ''https://c.example'')))
   \<and> steady (dl_events (preferred_reply config_ABC env_C_serves ''QmX''
                           (world_P ''https://c.example'')))
   \<and> progress (snd (downloadFromFilecoin config_ABC env_C_serves ''QmX'' False
                       (world_P ''https://c.example'')))
       = [Num 5, Num 10, Num 50, Num 90, Num 90, Num 100]
   \<and> list_all in_range [Num 5, Num 10, Num 50, Num 90, Num 90, Num 100]
   \<and> non_decreasing [Num 5, Num 10, Num 50, Num 90, Num 90, Num 100]"
proof -
  let ?w = "world_P ''https://c.example''"
  have d: "download_reply env_C_serves = (\<lambda>n url.
        if url = ''https://c.example/QmX''
        then \<lparr> dl_events = [(3, 6), (6, 6)], dl_outcome = DlSaved 200 ''aGVsbG8='' \<rparr>
        else \<lparr> dl_events = [], dl_outcome = DlRejects ''Network Error'' \<rparr>)"
    "blob_write_error env_C_serves = (\<lambda>cid text. None)"
    by (simp_all add: env_C_serves_def env_ABC_def env_down_def)
  have ev: "\<forall>n url. events_ok (dl_events (download_reply env_C_serves n url))"
    by (simp add: d events_ok_def)
  have k: "3 * length (IPFS_GATEWAYS config_ABC) \<le> 80" by (simp add: config_ABC_def)
  have pr: "preferred_reply config_ABC env_C_serves ''QmX'' ?w
              = \<lparr> dl_events = [(3, 6), (6, 6)], dl_outcome = DlSaved 200 ''aGVsbG8='' \<rparr>"
    by (simp add: preferred_reply_def getPreferredGateway_def world_P_def empty_world_def
          report_def d)
  have ok: "\<not> attempt_throws (dl_outcome (preferred_reply config_ABC env_C_serves ''QmX'' ?w))"
    by (simp add: pr attempt_throws_def)
  have st: "steady (dl_events (preferred_reply config_ABC env_C_serves ''QmX'' ?w))"
    by (simp add: pr steady_def)
  have p: "progress (snd (downloadFromFilecoin config_ABC env_C_serves ''QmX'' False ?w))
       = [Num 5, Num 10, Num 50, Num 90, Num 90, Num 100]"
    by (simp add: run_defs d config_ABC_def world_P_def empty_world_def progressPercent_def
          js_min_def progress_cache_result [unfolded report_def])
  have e: "progress ?w = []" by (simp add: world_P_def empty_world_def)
  show ?thesis
    using ev k ok st p
      downloadFromFilecoin_progress [OF ev k, where w = ?w and cid = "''QmX''" and skipCache = False]
    by (auto simp: e)
qed

section \<open>The staging file of an upload\<close>

lemma upload_attempt_files:
  "upload_attempt env url path m base span w = (Inr c, w') \<Longrightarrow> path \<notin> files w'"
  "upload_attempt env url path m base span w = (Inl e, w') \<Longrightarrow> files w' = files w"
  by (auto simp: upload_attempt_def Let_def report_def split: post_outcome.splits option.splits)

lemma uploadToFilecoin_removes_staging_file:
  assumes "fs_error env (WriteFile (cacheDirectory cfg @ fileName)) = None"
    and "fs_error env (GetInfo (cacheDirectory cfg @ fileName)) = None"
    and "fs_error env (DeleteFile (cacheDirectory cfg @ fileName)) = None"
  shows "cacheDirectory cfg @ fileName \<notin> files (snd (uploadToFilecoin cfg env fileData fileName w))"
  using assms
  by (auto simp: uploadToFilecoin_def upload_failed_def Let_def
      split: prod.splits sum.splits option.splits if_splits
      dest: upload_attempt_files)

text \<open>
  Claim C9. On every exit path of \<open>uploadToFilecoin\<close>, also when a step fails after the
  staging file is written and before the upload request is issued, the staging file is to
  be removed. The three exits that follow the upload request do remove it when the file
  system lets them (\<open>uploadToFilecoin_removes_staging_file\<close>). The exit through the outer
  \<open>catch\<close> does not: when \<open>getInfoAsync\<close> rejects, the function rethrows with the file
  still in the cache directory and without having issued a request.
\<close>

theorem uploadToFilecoin_leaves_staging_file:
  "files empty_world = {}
   \<and> uploadToFilecoin default_config env_info_fails ''aGVsbG8='' ''report.pdf'' empty_world
       = (Inl (Error ''IPFS upload failed: File is not readable''),
          empty_world\<lparr> files := {''file:///cache/report.pdf''}, progress := [Num 10],
                        console_error := [''Error in IPFS upload process: File is not readable''] \<rparr>)
   \<and> ''file:///cache/report.pdf''
       \<in> files (snd (uploadToFilecoin default_config env_info_fails ''aGVsbG8='' ''report.pdf'' empty_world))"
  by (simp add: uploadToFilecoin_def upload_failed_def report_def env_info_fails_def env_down_def
        default_config_def empty_world_def Let_def)

section \<open>Removal from the cache\<close>




end
